theory Spec2Isabelle
  imports Complex_Main "HOL-Library.Word"
begin

section \<open>Realtime collaboration layer of Sowntra (src/websocket/collaboration.ts)\<close>

text \<open>
  The module keeps two process-wide tables, \<open>boardConnections\<close> and \<open>boardDocs\<close>, and
  registers six Socket.IO handlers per socket (\<open>join-board\<close>, \<open>sync-state\<close>,
  \<open>board-update\<close>, \<open>cursor-move\<close>, \<open>awareness-update\<close>, \<open>disconnect\<close>).
  Each handler becomes a function from the server state to the new state and the list of
  effects it produced, in the order the code produces them. Objects that the code shares by
  reference (\<open>ClientConnection\<close>, \<open>Y.Doc\<close>) live in explicit stores indexed by an
  allocation counter, because \<open>Set.delete\<close> and the per-socket closure variable
  \<open>clientConnection\<close> work by object identity.
\<close>

subsection \<open>Values on the wire\<close>

type_synonym bytes = "8 word list"

text \<open>\<^verbatim>\<open>new Uint8Array(numbers)\<close>: each element is reduced modulo 256.\<close>

definition Uint8Array :: "int list \<Rightarrow> bytes" where
  "Uint8Array ns = map word_of_int ns"

text \<open>\<^verbatim>\<open>Array.from(uint8array)\<close>.\<close>

definition Array_from :: "bytes \<Rightarrow> int list" where
  "Array_from bs = map uint bs"

text \<open>
  A JavaScript \<open>number\<close>. Only the classification matters to the handlers (they never
  compute with coordinates), so finite doubles are embedded in the reals.
\<close>

datatype number = Finite real | Infinity | NegInfinity | NaN

text \<open>\<^verbatim>\<open>Number.isNaN\<close> and \<^verbatim>\<open>Number.isFinite\<close> on a number.\<close>

definition Number_isNaN :: "number \<Rightarrow> bool" where
  "Number_isNaN v = (v = NaN)"


text \<open>
  A payload as Socket.IO hands it to a handler: the value \<^verbatim>\<open>JSON.parse\<close> built. The
  TypeScript annotation of a handler's parameter is erased at run time, so any such value can
  arrive. An object is the list of its own properties (the keys are distinct). A number
  written \<open>1e999\<close> parses to \<open>Infinity\<close>; \<open>NaN\<close> has no notation in JSON. Binary
  attachments are left out.
\<close>

datatype json =
    JNull
  | JBool bool
  | JNumber number
  | JString string
  | JArray "json list"
  | JObject "(string \<times> json) list"

text \<open>
  \<^verbatim>\<open>data.x\<close> for a property name that no prototype defines (such as \<open>x\<close> and \<open>y\<close>).
  The outer \<open>None\<close> is the \<open>TypeError\<close> of reading a property of \<open>null\<close>; the inner
  \<open>None\<close> is \<open>undefined\<close>, which is also what a string, a number, a boolean and an array
  give.
\<close>

definition property :: "json \<Rightarrow> string \<Rightarrow> json option option" where
  "property v name =
     (case v of
        JNull \<Rightarrow> None
      | JObject kvs \<Rightarrow> Some (map_of kvs name)
      | _ \<Rightarrow> Some None)"

text \<open>
  The global \<^verbatim>\<open>isNaN(v)\<close> is \<^verbatim>\<open>Number.isNaN(ToNumber(v))\<close> (ECMA-262, 19.2.3 and
  7.1.4). ToNumber of a string is \<open>NaN\<close> unless the string, white space trimmed off both
  ends, is empty or a StrNumericLiteral: a decimal literal with optional sign, fraction and
  exponent, \<open>Infinity\<close> with optional sign, or an unsigned hexadecimal, octal or binary
  literal. The characters of a \<open>string\<close> are 8-bit, so of the white space of the language
  the model has TAB, LF, VT, FF, CR, SP and NBSP.
\<close>

definition StrWhiteSpaceChar :: "char \<Rightarrow> bool" where
  "StrWhiteSpaceChar c = ((of_char c :: nat) \<in> {9, 10, 11, 12, 13, 32, 160})"

definition trim :: "string \<Rightarrow> string" where
  "trim s = rev (dropWhile StrWhiteSpaceChar (rev (dropWhile StrWhiteSpaceChar s)))"

definition DecimalDigit :: "char \<Rightarrow> bool" where
  "DecimalDigit c = (48 \<le> (of_char c :: nat) \<and> (of_char c :: nat) \<le> 57)"

definition HexDigit :: "char \<Rightarrow> bool" where
  "HexDigit c = (DecimalDigit c \<or> (65 \<le> (of_char c :: nat) \<and> (of_char c :: nat) \<le> 70) \<or>
                 (97 \<le> (of_char c :: nat) \<and> (of_char c :: nat) \<le> 102))"

definition OctalDigit :: "char \<Rightarrow> bool" where
  "OctalDigit c = (48 \<le> (of_char c :: nat) \<and> (of_char c :: nat) \<le> 55)"

definition BinaryDigit :: "char \<Rightarrow> bool" where
  "BinaryDigit c = (c = CHR ''0'' \<or> c = CHR ''1'')"

text \<open>One digit or more, all of the given kind.\<close>

definition digits :: "(char \<Rightarrow> bool) \<Rightarrow> string \<Rightarrow> bool" where
  "digits P s = (s \<noteq> [] \<and> list_all P s)"

text \<open>Nothing, or \<open>e\<close> or \<open>E\<close>, an optional sign and decimal digits.\<close>

definition ExponentPart_opt :: "string \<Rightarrow> bool" where
  "ExponentPart_opt s =
     (case s of
        [] \<Rightarrow> True
      | c # t \<Rightarrow>
          (c = CHR ''e'' \<or> c = CHR ''E'') \<and>
          (case t of
             [] \<Rightarrow> False
           | d # u \<Rightarrow> if d = CHR ''+'' \<or> d = CHR ''-'' then digits DecimalDigit u
                      else digits DecimalDigit t))"

text \<open>
  \<open>Infinity\<close>; digits, a point, optional digits; a point and digits; or digits alone; the
  last three with an optional exponent.
\<close>

definition StrUnsignedDecimalLiteral :: "string \<Rightarrow> bool" where
  "StrUnsignedDecimalLiteral s =
     (s = ''Infinity'' \<or>
      (let whole = takeWhile DecimalDigit s; rest = dropWhile DecimalDigit s
       in case rest of
            [] \<Rightarrow> whole \<noteq> []
          | c # t \<Rightarrow>
              if c = CHR ''.''
              then (whole \<noteq> [] \<or> takeWhile DecimalDigit t \<noteq> []) \<and>
                   ExponentPart_opt (dropWhile DecimalDigit t)
              else whole \<noteq> [] \<and> ExponentPart_opt rest))"

definition StrDecimalLiteral :: "string \<Rightarrow> bool" where
  "StrDecimalLiteral s =
     (case s of
        [] \<Rightarrow> False
      | c # t \<Rightarrow> if c = CHR ''+'' \<or> c = CHR ''-'' then StrUnsignedDecimalLiteral t
                 else StrUnsignedDecimalLiteral s)"

definition NonDecimalIntegerLiteral :: "string \<Rightarrow> bool" where
  "NonDecimalIntegerLiteral s =
     (case s of
        z # p # t \<Rightarrow>
          z = CHR ''0'' \<and>
          (((p = CHR ''x'' \<or> p = CHR ''X'') \<and> digits HexDigit t) \<or>
           ((p = CHR ''o'' \<or> p = CHR ''O'') \<and> digits OctalDigit t) \<or>
           ((p = CHR ''b'' \<or> p = CHR ''B'') \<and> digits BinaryDigit t))
      | _ \<Rightarrow> False)"

text \<open>The strings that ToNumber does not send to \<open>NaN\<close>.\<close>

definition StringNumericLiteral :: "string \<Rightarrow> bool" where
  "StringNumericLiteral s =
     (trim s = [] \<or> StrDecimalLiteral (trim s) \<or> NonDecimalIntegerLiteral (trim s))"

text \<open>
  ToNumber of an object or array first makes it a primitive (OrdinaryToPrimitive, 7.1.1.1):
  it calls \<open>valueOf\<close>, then \<open>toString\<close>, and takes the first primitive result. No property
  of a parsed value is callable. So \<open>valueOf\<close> is either an own property, which is skipped,
  or \<^verbatim>\<open>Object.prototype.valueOf\<close>, which returns the object itself; and \<open>toString\<close> is
  either an own property, and then the conversion throws a \<open>TypeError\<close>, or the inherited
  one: \<open>[object Object]\<close> for an object, and for an array the texts of its elements joined
  by commas, where \<open>null\<close> gives the empty text and a nested object or array is converted the
  same way.
\<close>

fun ToPrimitive_throws :: "json \<Rightarrow> bool" where
  "ToPrimitive_throws (JObject kvs) = (''toString'' \<in> set (map fst kvs))"
| "ToPrimitive_throws (JArray vs) = list_ex ToPrimitive_throws vs"
| "ToPrimitive_throws v = False"

text \<open>
  Whether the text of an array element reads back as a number: \<open>null\<close> gives the empty
  text, which reads as \<open>0\<close>; \<open>true\<close> and \<open>false\<close> do not read as numbers; the text of a
  number reads as that number; a string is its own text; an object gives
  \<open>[object Object]\<close>. The text of an array of two or more elements contains a comma and
  never reads as a number.
\<close>

fun reads_as_number :: "json \<Rightarrow> bool" where
  "reads_as_number JNull = True"
| "reads_as_number (JBool b) = False"
| "reads_as_number (JNumber n) = (\<not> Number_isNaN n)"
| "reads_as_number (JString s) = StringNumericLiteral s"
| "reads_as_number (JArray []) = True"
| "reads_as_number (JArray [v]) = reads_as_number v"
| "reads_as_number (JArray (v # w # vs)) = False"
| "reads_as_number (JObject kvs) = False"

text \<open>
  \<^verbatim>\<open>isNaN(v)\<close> for a value that is not \<open>undefined\<close>: \<open>None\<close> when the conversion throws.
  \<open>null\<close> converts to \<open>0\<close>, \<open>false\<close> and \<open>true\<close> to \<open>0\<close> and \<open>1\<close>.
\<close>

definition isNaN :: "json \<Rightarrow> bool option" where
  "isNaN v =
     (if ToPrimitive_throws v then None
      else Some (case v of
                   JNull \<Rightarrow> False
                 | JBool b \<Rightarrow> False
                 | JNumber n \<Rightarrow> Number_isNaN n
                 | JString s \<Rightarrow> \<not> StringNumericLiteral s
                 | JArray vs \<Rightarrow> \<not> reads_as_number v
                 | JObject kvs \<Rightarrow> True))"

text \<open>Truthiness of an optional string: \<open>undefined\<close> and the empty string are falsy.\<close>

definition truthy :: "string option \<Rightarrow> bool" where
  "truthy v = (case v of None \<Rightarrow> False | Some t \<Rightarrow> t \<noteq> [])"

text \<open>\<^verbatim>\<open>a || b\<close> on optional strings.\<close>

definition or_else :: "string option \<Rightarrow> string option \<Rightarrow> string option" where
  "or_else a b = (if truthy a then a else b)"

text \<open>Payload of \<open>join-board\<close>: \<^verbatim>\<open>{ boardId: string; userId?; userName?; userEmail? }\<close>.\<close>

record join_data =
  data_boardId :: string
  data_userId :: "string option"
  data_userName :: "string option"
  data_userEmail :: "string option"

subsection \<open>The objects of the module\<close>

text \<open>
  \<^verbatim>\<open>interface ClientConnection\<close>. The \<open>socket\<close> field refers to the Socket.IO socket,
  identified by its \<open>socket.id\<close>. The \<open>cursor\<close> holds the two values that line 286 copies
  from the payload, whatever they are.
\<close>

record ClientConnection =
  socket :: string
  boardId :: string
  userId :: "string option"
  userName :: "string option"
  userEmail :: "string option"
  color :: "string option"
  cursor :: "(json \<times> json) option"

text \<open>The properties the join handler attaches to the socket object itself.\<close>

record socket_props =
  sp_userRole :: string
  sp_boardId :: string
  sp_dbUserId :: "string option"

text \<open>One element of an \<open>active-users\<close> list.\<close>

record user_info =
  ui_userId :: "string option"
  ui_userName :: "string option"
  ui_userEmail :: "string option"
  ui_color :: "string option"
  ui_cursor :: "(json \<times> json) option"
  ui_socketId :: string
  ui_role :: string

text \<open>
  Outbound messages, with their fields in the order of the object literals of the source:
  \<open>UserJoined userId userName userEmail color socketId role\<close>,
  \<open>UserLeft userId userName userEmail socketId\<close>,
  \<open>CursorUpdate userId userName userEmail color cursor socketId\<close> (the \<open>cursor\<close> is the
  whole payload, line 294),
  \<open>AwarenessUpdate userId userName color state socketId\<close>.
\<close>

datatype message =
    Error string
  | SyncBoard "int list"
  | ActiveUsers "user_info list"
  | UserJoined "string option" "string option" "string option" "string option" string string
  | UserLeft "string option" "string option" "string option" string
  | UserRole string
  | BoardUpdate "int list"
  | CursorUpdate "string option" "string option" "string option" "string option" json string
  | AwarenessUpdate "string option" "string option" "string option" "string option" string

text \<open>
  The three ways the code addresses a message: \<^verbatim>\<open>socket.emit\<close>,
  \<^verbatim>\<open>socket.to(room).emit\<close> (the room without that socket) and \<^verbatim>\<open>io.to(room).emit\<close>.
\<close>

datatype target = ToSocket string | ToRoomExcept string string | ToRoom string

text \<open>
  What a handler does that is visible outside the tables: a message, a \<^verbatim>\<open>console.error\<close>
  line, or an exception that leaves the handler uncaught.
\<close>

datatype effect = Emit target message | ConsoleError string | Uncaught

subsection \<open>Collaborators: the database and the document engine\<close>

text \<open>
  The Prisma models as far as this module reads and writes them: \<open>User\<close> by its unique
  \<open>firebaseUid\<close>, \<open>Board\<close> by \<open>id\<close> with its members.
\<close>

record BoardMember =
  member_userId :: string
  member_role :: string

record Board =
  ownerId :: string
  isPublic :: bool
  members :: "BoardMember list"
  yDocState :: "bytes option"
  lastModified :: int

record database =
  users :: "string \<rightharpoonup> string"
  boards :: "string \<rightharpoonup> Board"

text \<open>
  Everything a handler takes from its environment: which database calls reject, the value of
  \<^verbatim>\<open>Math.floor(Math.random() * colors.length)\<close>, and the clock read by \<^verbatim>\<open>new Date()\<close>.
\<close>

datatype dbcall = UserFind | BoardFindAccess | BoardFindAnonymous | BoardFindLoad | BoardUpdateWrite

record env =
  fails :: "dbcall \<Rightarrow> bool"
  random_index :: nat
  now :: int

text \<open>
  The Yjs library is a parameter. \<open>applyUpdate\<close> returns \<open>None\<close> when the library throws
  (the document is then as before), and otherwise the new content together with the payload of
  the \<open>update\<close> event it fires, if it fires one.
\<close>

record 'd engine =
  new_Doc :: 'd
  applyUpdate :: "'d \<Rightarrow> bytes \<Rightarrow> ('d \<times> bytes option) option"
  encodeStateAsUpdate :: "'d \<Rightarrow> bytes"

text \<open>
  A \<open>Y.Doc\<close> object: its content and, for every listener registered with
  \<^verbatim>\<open>yDoc.on('update', ...)\<close>, the \<open>boardId\<close> that the listener's closure captured.
\<close>

record 'd YDoc =
  content :: 'd
  observers :: "string list"

subsection \<open>The server state\<close>

record 'd state =
  boardConnections :: "string \<rightharpoonup> nat list"
  boardDocs :: "string \<rightharpoonup> nat"
  conns :: "nat \<rightharpoonup> ClientConnection"
  nextConn :: nat
  docs :: "nat \<rightharpoonup> 'd YDoc"
  nextDoc :: nat
  clientConnection :: "string \<rightharpoonup> nat"
  props :: "string \<rightharpoonup> socket_props"
  rooms :: "string \<Rightarrow> string set"
  prisma :: database

text \<open>
  \<open>boardConnections\<close> maps a board to its \<open>Set\<close> of connection objects, kept as the list
  of their references in insertion order; \<open>clientConnection\<close> is the closure variable of
  each socket (\<open>None\<close> is \<open>null\<close>); \<open>rooms\<close> is the Socket.IO room membership that
  \<^verbatim>\<open>socket.join\<close> changes.
\<close>

definition init :: "database \<Rightarrow> 'd state" where
  "init db = \<lparr> boardConnections = Map.empty, boardDocs = Map.empty, conns = Map.empty,
     nextConn = 0, docs = Map.empty, nextDoc = 0, clientConnection = Map.empty,
     props = Map.empty, rooms = (\<lambda>_. {}), prisma = db \<rparr>"


subsection \<open>Database calls\<close>

text \<open>A call returns \<open>None\<close> when its promise rejects.\<close>

definition user_findUnique :: "env \<Rightarrow> database \<Rightarrow> string \<Rightarrow> string option option" where
  "user_findUnique e db uid = (if fails e UserFind then None else Some (users db uid))"

definition board_findUnique :: "env \<Rightarrow> dbcall \<Rightarrow> database \<Rightarrow> string \<Rightarrow> Board option option" where
  "board_findUnique e c db b = (if fails e c then None else Some (boards db b))"

text \<open>
  \<^verbatim>\<open>include: { members: { where: dbUserId ? { userId: dbUserId } : undefined } }\<close>.
\<close>

definition include_members :: "string option \<Rightarrow> Board \<Rightarrow> Board" where
  "include_members dbUserId board =
     (case dbUserId of
        None \<Rightarrow> board
      | Some d \<Rightarrow> if d = [] then board
                  else board\<lparr>members := filter (\<lambda>m. member_userId m = d) (members board)\<rparr>)"

text \<open>
  \<^verbatim>\<open>prisma.board.update({ where: { id }, data: { yDocState, lastModified } })\<close>; it rejects
  when the row does not exist.
\<close>

definition board_update_row :: "env \<Rightarrow> database \<Rightarrow> string \<Rightarrow> bytes \<Rightarrow> database option" where
  "board_update_row e db b u =
     (if fails e BoardUpdateWrite then None
      else case boards db b of
             None \<Rightarrow> None
           | Some row \<Rightarrow>
               Some (db\<lparr>boards := (boards db)(b \<mapsto> row\<lparr>yDocState := Some u, lastModified := now e\<rparr>)\<rparr>))"

subsection \<open>Access check of \<open>join-board\<close> (lines 53--112)\<close>

text \<open>
  Lines 79--98, for the board the lookup returned (\<open>None\<close>: no such board). The result is
  \<open>(hasAccess, userRole)\<close>; both start as \<open>false\<close> and \<open>'viewer'\<close>.
\<close>

definition decide_access :: "string option \<Rightarrow> Board option \<Rightarrow> bool \<times> string" where
  "decide_access dbUserId found =
     (case found of
        None \<Rightarrow> (False, ''viewer'')
      | Some board \<Rightarrow>
          if truthy dbUserId \<and> Some (ownerId board) = dbUserId then (True, ''owner'')
          else if truthy dbUserId then
            (case find (\<lambda>m. Some (member_userId m) = dbUserId) (members board) of
               Some member \<Rightarrow> (True, member_role member)
             | None \<Rightarrow> if isPublic board then (True, ''viewer'') else (False, ''viewer''))
          else if isPublic board then (True, ''viewer'')
          else (False, ''viewer''))"

text \<open>Lines 102--112: no \<open>userId\<close> was sent; \<^verbatim>\<open>hasAccess = board?.isPublic || false\<close>.\<close>

definition anonymous_access :: "env \<Rightarrow> database \<Rightarrow> string \<Rightarrow> bool \<times> string \<times> string option \<times> effect list" where
  "anonymous_access e db bId =
     (case board_findUnique e BoardFindAnonymous db bId of
        None \<Rightarrow> (False, ''viewer'', None, [ConsoleError ''Error checking board access:''])
      | Some found \<Rightarrow>
          ((case found of None \<Rightarrow> False | Some board \<Rightarrow> isPublic board), ''viewer'', None, []))"

text \<open>Lines 69--101, once the user lookup has returned \<open>dbUser\<close>.\<close>

definition member_access :: "env \<Rightarrow> database \<Rightarrow> string \<Rightarrow> string option \<Rightarrow> bool \<times> string \<times> string option \<times> effect list" where
  "member_access e db bId dbUserId =
     (case board_findUnique e BoardFindAccess db bId of
        None \<Rightarrow> (False, ''viewer'', dbUserId, [ConsoleError ''Error verifying board access:''])
      | Some found \<Rightarrow>
          (case decide_access dbUserId (map_option (include_members dbUserId) found) of
             (hasAccess, userRole) \<Rightarrow> (hasAccess, userRole, dbUserId, [])))"

text \<open>
  Lines 53--112 as a whole: \<open>(hasAccess, userRole, dbUserId, log)\<close>. The branch
  \<^verbatim>\<open>else if (boardId)\<close> is always taken when \<open>userId\<close> is falsy, because an empty
  \<open>boardId\<close> has returned at line 48.
\<close>

definition verify_access :: "env \<Rightarrow> database \<Rightarrow> string \<Rightarrow> string option \<Rightarrow> bool \<times> string \<times> string option \<times> effect list" where
  "verify_access e db bId uId =
     (case uId of
        None \<Rightarrow> anonymous_access e db bId
      | Some uid \<Rightarrow>
          if uid = [] then anonymous_access e db bId
          else (case user_findUnique e db uid of
                  None \<Rightarrow> (False, ''viewer'', None, [ConsoleError ''Error verifying board access:''])
                | Some dbUser \<Rightarrow> member_access e db bId dbUser))"

subsection \<open>Documents (lines 122--157 and the \<open>update\<close> listener)\<close>

text \<open>
  The listener of lines 144--156, once per registered closure: it writes the bytes of the
  event to the board's row, and logs when the write rejects.
\<close>

fun notify_observers :: "env \<Rightarrow> string list \<Rightarrow> bytes \<Rightarrow> database \<Rightarrow> database \<times> effect list" where
  "notify_observers e [] u db = (db, [])"
| "notify_observers e (b # bs) u db =
     (case board_update_row e db b u of
        None \<Rightarrow> (case notify_observers e bs u db of
                   (db', l) \<Rightarrow> (db', ConsoleError ''Error saving board state:'' # l))
      | Some db1 \<Rightarrow> notify_observers e bs u db1)"

text \<open>
  \<^verbatim>\<open>Y.applyUpdate(yDoc, update)\<close> on the document object \<open>y\<close>: \<open>None\<close> when the library
  throws; otherwise the content changes and the \<open>update\<close> event, if one fires, runs the
  listeners. The database write of a listener is taken at the moment it is issued.
\<close>

definition Y_applyUpdate :: "'d engine \<Rightarrow> env \<Rightarrow> nat \<Rightarrow> bytes \<Rightarrow> 'd state \<Rightarrow> ('d state \<times> effect list) option" where
  "Y_applyUpdate eng e y u s =
     (case docs s y of
        None \<Rightarrow> Some (s, [])
      | Some d \<Rightarrow>
          (case applyUpdate eng (content d) u of
             None \<Rightarrow> None
           | Some (c', ev) \<Rightarrow>
               (let s1 = s\<lparr>docs := (docs s)(y \<mapsto> d\<lparr>content := c'\<rparr>)\<rparr> in
                case ev of
                  None \<Rightarrow> Some (s1, [])
                | Some upd \<Rightarrow>
                    (case notify_observers e (observers d) upd (prisma s1) of
                       (db', l) \<Rightarrow> Some (s1\<lparr>prisma := db'\<rparr>, l)))))"

text \<open>\<^verbatim>\<open>yDoc = new Y.Doc()\<close> (line 126).\<close>

definition alloc_doc :: "'d engine \<Rightarrow> 'd state \<Rightarrow> nat \<times> 'd state" where
  "alloc_doc eng s =
     (nextDoc s,
      s\<lparr>docs := (docs s)(nextDoc s \<mapsto> \<lparr>content = new_Doc eng, observers = []\<rparr>),
        nextDoc := Suc (nextDoc s)\<rparr>)"

text \<open>Lines 141--156: \<^verbatim>\<open>boardDocs.set(boardId, yDoc); yDoc.on('update', ...)\<close>.\<close>

definition install_doc :: "string \<Rightarrow> nat \<Rightarrow> 'd state \<Rightarrow> 'd state" where
  "install_doc bId y s =
     s\<lparr>boardDocs := (boardDocs s)(bId \<mapsto> y),
       docs := (case docs s y of
                  None \<Rightarrow> docs s
                | Some d \<Rightarrow> (docs s)(y \<mapsto> d\<lparr>observers := observers d @ [bId]\<rparr>))\<rparr>"

text \<open>
  Lines 129--156, after the lookup of line 130 has returned: merge the persisted bytes into
  the new document (a failure is caught and logged), then install the document.
\<close>

definition load_persisted :: "'d engine \<Rightarrow> env \<Rightarrow> string \<Rightarrow> nat \<Rightarrow> 'd state \<Rightarrow> 'd state \<times> effect list" where
  "load_persisted eng e bId y s =
     (case (case board_findUnique e BoardFindLoad (prisma s) bId of
              None \<Rightarrow> (s, [ConsoleError ''Error loading board state:''])
            | Some None \<Rightarrow> (s, [])
            | Some (Some board) \<Rightarrow>
                (case yDocState board of
                   None \<Rightarrow> (s, [])
                 | Some persisted \<Rightarrow>
                     (case Y_applyUpdate eng e y persisted s of
                        None \<Rightarrow> (s, [ConsoleError ''Error loading board state:''])
                      | Some r \<Rightarrow> r))) of
        (s1, l) \<Rightarrow> (install_doc bId y s1, l))"

text \<open>Lines 122--157 run without interruption.\<close>

definition load_or_create :: "'d engine \<Rightarrow> env \<Rightarrow> string \<Rightarrow> 'd state \<Rightarrow> nat \<times> 'd state \<times> effect list" where
  "load_or_create eng e bId s =
     (case boardDocs s bId of
        Some y \<Rightarrow> (y, s, [])
      | None \<Rightarrow>
          (case alloc_doc eng s of
             (y, s1) \<Rightarrow> (case load_persisted eng e bId y s1 of (s2, l) \<Rightarrow> (y, s2, l))))"

subsection \<open>Admission (lines 159--232)\<close>

definition colors :: "string list" where
  "colors = [''#FF6B6B'', ''#4ECDC4'', ''#45B7D1'', ''#FFA07A'', ''#98D8C8'',
             ''#F7DC6F'', ''#BB8FCE'', ''#85C1E2'', ''#F8B739'', ''#52B788'']"

text \<open>\<^verbatim>\<open>colors[k]\<close> for the random index \<open>k\<close>; \<open>undefined\<close> out of range.\<close>

definition getRandomColor :: "nat \<Rightarrow> string option" where
  "getRandomColor k = (if k < length colors then Some (colors ! k) else None)"

text \<open>The test of lines 183--184 on an existing connection.\<close>

definition same_user :: "string option \<Rightarrow> string option \<Rightarrow> ClientConnection \<Rightarrow> bool" where
  "same_user dbUserId email conn =
     ((truthy dbUserId \<and> userId conn = dbUserId) \<or> (truthy email \<and> userEmail conn = email))"

definition is_same_user :: "'d state \<Rightarrow> string option \<Rightarrow> string option \<Rightarrow> nat \<Rightarrow> bool" where
  "is_same_user s dbUserId email r =
     (case conns s r of None \<Rightarrow> False | Some conn \<Rightarrow> same_user dbUserId email conn)"

text \<open>Lines 187--192: the notice for a connection that is being replaced.\<close>

definition left_notice :: "'d state \<Rightarrow> string \<Rightarrow> nat \<Rightarrow> effect list" where
  "left_notice s bId r =
     (case conns s r of
        None \<Rightarrow> []
      | Some conn \<Rightarrow>
          [Emit (ToRoomExcept (socket conn) bId)
             (UserLeft (userId conn) (userName conn) (userEmail conn) (socket conn))])"

text \<open>\<^verbatim>\<open>(conn.socket as any).userRole || 'viewer'\<close>.\<close>

definition role_of :: "'d state \<Rightarrow> string \<Rightarrow> string" where
  "role_of s k =
     (case props s k of
        None \<Rightarrow> ''viewer''
      | Some p \<Rightarrow> if sp_userRole p = [] then ''viewer'' else sp_userRole p)"

definition user_entry :: "'d state \<Rightarrow> ClientConnection \<Rightarrow> user_info" where
  "user_entry s conn =
     \<lparr> ui_userId = userId conn, ui_userName = userName conn, ui_userEmail = userEmail conn,
       ui_color = color conn, ui_cursor = cursor conn, ui_socketId = socket conn,
       ui_role = role_of s (socket conn) \<rparr>"

text \<open>\<^verbatim>\<open>Array.from(boardConnections.get(boardId) || [])\<close>.\<close>

definition connections_of :: "'d state \<Rightarrow> string \<Rightarrow> nat list" where
  "connections_of s bId = (case boardConnections s bId of None \<Rightarrow> [] | Some rs \<Rightarrow> rs)"

definition active_users :: "'d state \<Rightarrow> string \<Rightarrow> user_info list" where
  "active_users s bId =
     concat (map (\<lambda>r. case conns s r of None \<Rightarrow> [] | Some conn \<Rightarrow> [user_entry s conn])
               (connections_of s bId))"

text \<open>Lines 160--168: the connection object of the joiner.\<close>

definition new_connection :: "env \<Rightarrow> string \<Rightarrow> join_data \<Rightarrow> string option \<Rightarrow> ClientConnection" where
  "new_connection e k data dbUserId =
     \<lparr> socket = k, boardId = data_boardId data,
       userId = or_else dbUserId (data_userId data),
       userName = or_else (data_userName data) (Some ''Anonymous''),
       userEmail = data_userEmail data,
       color = getRandomColor (random_index e),
       cursor = None \<rparr>"

text \<open>
  Lines 159--232: create the connection, record it on the socket, replace the connections of
  the same user in the room, then send the document, the roster, the join notice and the role.
\<close>

definition admit :: "'d engine \<Rightarrow> env \<Rightarrow> string \<Rightarrow> join_data \<Rightarrow> string \<Rightarrow> string option \<Rightarrow> nat \<Rightarrow> 'd state \<Rightarrow> 'd state \<times> effect list" where
  "admit eng e k data userRole dbUserId yDoc s =
     (let bId = data_boardId data;
          r = nextConn s;
          conn = new_connection e k data dbUserId;
          s1 = s\<lparr>conns := (conns s)(r \<mapsto> conn), nextConn := Suc r,
                 clientConnection := (clientConnection s)(k \<mapsto> r),
                 props := (props s)(k \<mapsto>
                   \<lparr>sp_userRole = userRole, sp_boardId = bId, sp_dbUserId = dbUserId\<rparr>)\<rparr>;
          existing = connections_of s1 bId;
          evicted = filter (is_same_user s1 dbUserId (data_userEmail data)) existing;
          kept = filter (\<lambda>x. \<not> is_same_user s1 dbUserId (data_userEmail data) x) existing;
          s2 = s1\<lparr>boardConnections := (boardConnections s1)(bId \<mapsto> kept @ [r])\<rparr>;
          st = (case docs s2 yDoc of
                  None \<Rightarrow> []
                | Some d \<Rightarrow> encodeStateAsUpdate eng (content d))
      in (s2,
          concat (map (left_notice s1 bId) evicted) @
          [Emit (ToSocket k) (SyncBoard (Array_from st)),
           Emit (ToSocket k) (ActiveUsers (active_users s2 bId)),
           Emit (ToRoomExcept k bId)
             (UserJoined (userId conn) (userName conn) (data_userEmail data) (color conn) k userRole),
           Emit (ToSocket k) (UserRole userRole)]))"

text \<open>Line 120: \<^verbatim>\<open>socket.join(boardId)\<close>.\<close>

definition socket_join :: "string \<Rightarrow> string \<Rightarrow> 'd state \<Rightarrow> 'd state" where
  "socket_join k bId s = s\<lparr>rooms := (rooms s)(bId := insert k (rooms s bId))\<rparr>"

subsection \<open>The handlers\<close>

text \<open>
  \<open>join-board\<close> (lines 44--237), run without another handler in between. The inner
  \<^verbatim>\<open>try\<close> blocks catch every rejection of a lookup, so the outer \<^verbatim>\<open>catch\<close> is never
  entered.
\<close>

definition join_board :: "'d engine \<Rightarrow> env \<Rightarrow> string \<Rightarrow> join_data \<Rightarrow> 'd state \<Rightarrow> 'd state \<times> effect list" where
  "join_board eng e k data s =
     (let bId = data_boardId data in
      if bId = [] then (s, [Emit (ToSocket k) (Error ''Board ID required'')])
      else
        (case verify_access e (prisma s) bId (data_userId data) of
           (hasAccess, userRole, dbUserId, l) \<Rightarrow>
             if \<not> hasAccess then (s, l @ [Emit (ToSocket k) (Error ''Access denied to this board'')])
             else
               (case load_or_create eng e bId (socket_join k bId s) of
                  (yDoc, s2, l2) \<Rightarrow>
                    (case admit eng e k data userRole dbUserId yDoc s2 of
                       (s3, out) \<Rightarrow> (s3, l @ l2 @ out)))))"

text \<open>\<open>sync-state\<close> (lines 242--251). \<open>None\<close> is a payload without \<open>state\<close>.\<close>

definition sync_state :: "'d engine \<Rightarrow> env \<Rightarrow> string \<Rightarrow> int list option \<Rightarrow> 'd state \<Rightarrow> 'd state \<times> effect list" where
  "sync_state eng e k data_state s =
     (case clientConnection s k of
        None \<Rightarrow> (s, [])
      | Some r \<Rightarrow>
          (case conns s r of
             None \<Rightarrow> (s, [])
           | Some conn \<Rightarrow>
               (case boardDocs s (boardId conn) of
                  None \<Rightarrow> (s, [])
                | Some yDoc \<Rightarrow>
                    (case data_state of
                       None \<Rightarrow> (s, [])
                     | Some ns \<Rightarrow>
                         (case Y_applyUpdate eng e yDoc (Uint8Array ns) s of
                            None \<Rightarrow> (s, [Uncaught])
                          | Some r \<Rightarrow> r)))))"

text \<open>
  \<open>board-update\<close> (lines 256--272). The log line of a failed save follows the broadcast,
  since the listener's \<^verbatim>\<open>catch\<close> runs after the handler has returned.
\<close>

definition board_update :: "'d engine \<Rightarrow> env \<Rightarrow> string \<Rightarrow> int list option \<Rightarrow> 'd state \<Rightarrow> 'd state \<times> effect list" where
  "board_update eng e k data_update s =
     (case clientConnection s k of
        None \<Rightarrow> (s, [])
      | Some r \<Rightarrow>
          (case conns s r of
             None \<Rightarrow> (s, [])
           | Some conn \<Rightarrow>
               (case boardDocs s (boardId conn) of
                  None \<Rightarrow> (s, [])
                | Some yDoc \<Rightarrow>
                    (case data_update of
                       None \<Rightarrow> (s, [])
                     | Some ns \<Rightarrow>
                         (case Y_applyUpdate eng e yDoc (Uint8Array ns) s of
                            None \<Rightarrow> (s, [Uncaught])
                          | Some (s1, l) \<Rightarrow>
                              (s1, Emit (ToRoom (boardId conn))
                                     (BoardUpdate (Array_from (Uint8Array ns))) # l))))))"

text \<open>
  \<open>cursor-move\<close> (lines 277--297). The payload is \<open>None\<close> when the event came without
  an argument (\<open>data\<close> is \<open>undefined\<close>). The test of lines 281--282 is evaluated from left
  to right: reading \<^verbatim>\<open>data.x\<close> throws when \<open>data\<close> is \<open>undefined\<close> or \<open>null\<close>; then
  both coordinates are compared with \<open>undefined\<close>; then \<^verbatim>\<open>isNaN\<close> converts the first
  and, if that is a number, the second. Nothing catches what is thrown.
\<close>

definition cursor_move :: "string \<Rightarrow> json option \<Rightarrow> 'd state \<Rightarrow> 'd state \<times> effect list" where
  "cursor_move k payload s =
     (case clientConnection s k of
        None \<Rightarrow> (s, [])
      | Some r \<Rightarrow>
          (case conns s r of
             None \<Rightarrow> (s, [])
           | Some conn \<Rightarrow>
               (case payload of
                  None \<Rightarrow> (s, [Uncaught])
                | Some data \<Rightarrow>
                    (case property data ''x'' of
                       None \<Rightarrow> (s, [Uncaught])
                     | Some None \<Rightarrow> (s, [])
                     | Some (Some x) \<Rightarrow>
                         (case property data ''y'' of
                            None \<Rightarrow> (s, [Uncaught])
                          | Some None \<Rightarrow> (s, [])
                          | Some (Some y) \<Rightarrow>
                              (case isNaN x of
                                 None \<Rightarrow> (s, [Uncaught])
                               | Some nx \<Rightarrow>
                                   if nx then (s, [])
                                   else
                                     (case isNaN y of
                                        None \<Rightarrow> (s, [Uncaught])
                                      | Some ny \<Rightarrow>
                                          if ny then (s, [])
                                          else
                                            (s\<lparr>conns := (conns s)(r \<mapsto> conn\<lparr>cursor := Some (x, y)\<rparr>)\<rparr>,
                                             [Emit (ToRoomExcept k (boardId conn))
                                                (CursorUpdate (userId conn) (userName conn)
                                                   (userEmail conn) (color conn) data k)]))))))))"

text \<open>\<open>awareness-update\<close> (lines 302--313); the state is relayed as it came.\<close>

definition awareness_update :: "string \<Rightarrow> string option \<Rightarrow> 'd state \<Rightarrow> 'd state \<times> effect list" where
  "awareness_update k data_st s =
     (case clientConnection s k of
        None \<Rightarrow> (s, [])
      | Some r \<Rightarrow>
          (case conns s r of
             None \<Rightarrow> (s, [])
           | Some conn \<Rightarrow>
               (s, [Emit (ToRoomExcept k (boardId conn))
                      (AwarenessUpdate (userId conn) (userName conn) (color conn) data_st k)])))"

text \<open>Lines 324--332: \<^verbatim>\<open>connections.delete(clientConnection)\<close> and the teardown of an empty room.\<close>

definition remove_connection :: "string \<Rightarrow> nat \<Rightarrow> 'd state \<Rightarrow> 'd state" where
  "remove_connection bId r s =
     (case boardConnections s bId of
        None \<Rightarrow> s
      | Some rs \<Rightarrow>
          if removeAll r rs = []
          then s\<lparr>boardConnections := (boardConnections s)(bId := None),
                 boardDocs := (boardDocs s)(bId := None)\<rparr>
          else s\<lparr>boardConnections := (boardConnections s)(bId \<mapsto> removeAll r rs)\<rparr>)"

text \<open>The \<open>disconnect\<close> handler (lines 318--361).\<close>

definition on_disconnect :: "string \<Rightarrow> 'd state \<Rightarrow> 'd state \<times> effect list" where
  "on_disconnect k s =
     (case clientConnection s k of
        None \<Rightarrow> (s, [])
      | Some r \<Rightarrow>
          (case conns s r of
             None \<Rightarrow> (s, [])
           | Some conn \<Rightarrow>
               (let s1 = remove_connection (boardId conn) r s in
                (s1\<lparr>clientConnection := (clientConnection s1)(k := None)\<rparr>,
                 [Emit (ToRoomExcept k (boardId conn))
                    (UserLeft (userId conn) (userName conn) (userEmail conn) k),
                  Emit (ToRoom (boardId conn)) (ActiveUsers (active_users s1 (boardId conn)))]))))"

text \<open>
  A transport disconnect: Socket.IO takes the socket out of every room before it fires
  \<open>disconnect\<close>, then the handler runs.
\<close>

definition socket_disconnect :: "string \<Rightarrow> 'd state \<Rightarrow> 'd state \<times> effect list" where
  "socket_disconnect k s = on_disconnect k (s\<lparr>rooms := (\<lambda>b. rooms s b - {k})\<rparr>)"

subsection \<open>Runs of the server\<close>

datatype event =
    Join_board string join_data
  | Sync_state string "int list option"
  | Board_update string "int list option"
  | Cursor_move string "json option"
  | Awareness_update string "string option"
  | Disconnect string

definition handle :: "'d engine \<Rightarrow> env \<Rightarrow> event \<Rightarrow> 'd state \<Rightarrow> 'd state \<times> effect list" where
  "handle eng e ev s =
     (case ev of
        Join_board k d \<Rightarrow> join_board eng e k d s
      | Sync_state k d \<Rightarrow> sync_state eng e k d s
      | Board_update k d \<Rightarrow> board_update eng e k d s
      | Cursor_move k d \<Rightarrow> cursor_move k d s
      | Awareness_update k d \<Rightarrow> awareness_update k d s
      | Disconnect k \<Rightarrow> socket_disconnect k s)"

fun run :: "'d engine \<Rightarrow> (env \<times> event) list \<Rightarrow> 'd state \<Rightarrow> 'd state \<times> effect list" where
  "run eng [] s = (s, [])"
| "run eng ((e, ev) # evs) s =
     (case handle eng e ev s of
        (s1, out1) \<Rightarrow> (case run eng evs s1 of (s2, out2) \<Rightarrow> (s2, out1 @ out2)))"

subsection \<open>\<open>join-board\<close> between its suspension points\<close>

text \<open>
  The join handler is \<^verbatim>\<open>async\<close>: it gives up control at each \<^verbatim>\<open>await\<close> (lines 61, 69,
  105 and 130), and other handlers run before it resumes. \<open>pending\<close> names the lookup a
  suspended handler waits for, with the local variables it will still use.
\<close>

datatype pending =
    Await_user
  | Await_board_access "string option"
  | Await_board_anonymous
  | Await_board_load string "string option" nat
  | Finished

text \<open>Lines 114--126: from the outcome of the access check up to the next \<^verbatim>\<open>await\<close>.\<close>

definition after_access :: "'d engine \<Rightarrow> env \<Rightarrow> string \<Rightarrow> join_data \<Rightarrow> bool \<times> string \<times> string option \<times> effect list \<Rightarrow> 'd state \<Rightarrow> pending \<times> 'd state \<times> effect list" where
  "after_access eng e k data acc s =
     (case acc of
        (hasAccess, userRole, dbUserId, l) \<Rightarrow>
          if \<not> hasAccess then (Finished, s, l @ [Emit (ToSocket k) (Error ''Access denied to this board'')])
          else
            (let bId = data_boardId data;
                 s1 = socket_join k bId s
             in case boardDocs s1 bId of
                  Some y \<Rightarrow>
                    (case admit eng e k data userRole dbUserId y s1 of
                       (s2, out) \<Rightarrow> (Finished, s2, l @ out))
                | None \<Rightarrow>
                    (case alloc_doc eng s1 of
                       (y, s2) \<Rightarrow> (Await_board_load userRole dbUserId y, s2, l))))"

text \<open>Lines 44--61 or 44--105: up to the first \<^verbatim>\<open>await\<close>.\<close>

definition join_begin :: "string \<Rightarrow> join_data \<Rightarrow> 'd state \<Rightarrow> pending \<times> 'd state \<times> effect list" where
  "join_begin k data s =
     (if data_boardId data = [] then (Finished, s, [Emit (ToSocket k) (Error ''Board ID required'')])
      else if truthy (data_userId data) then (Await_user, s, [])
      else (Await_board_anonymous, s, []))"

text \<open>The handler resumes with the answer of the lookup it waited for, read from the database now.\<close>

definition join_resume :: "'d engine \<Rightarrow> env \<Rightarrow> string \<Rightarrow> join_data \<Rightarrow> pending \<Rightarrow> 'd state \<Rightarrow> pending \<times> 'd state \<times> effect list" where
  "join_resume eng e k data p s =
     (case p of
        Await_user \<Rightarrow>
          (case data_userId data of
             None \<Rightarrow> (Finished, s, [])
           | Some uid \<Rightarrow>
               (case user_findUnique e (prisma s) uid of
                  None \<Rightarrow> after_access eng e k data
                            (False, ''viewer'', None, [ConsoleError ''Error verifying board access:'']) s
                | Some dbUser \<Rightarrow> (Await_board_access dbUser, s, [])))
      | Await_board_access dbUserId \<Rightarrow>
          after_access eng e k data (member_access e (prisma s) (data_boardId data) dbUserId) s
      | Await_board_anonymous \<Rightarrow>
          after_access eng e k data (anonymous_access e (prisma s) (data_boardId data)) s
      | Await_board_load userRole dbUserId y \<Rightarrow>
          (case load_persisted eng e (data_boardId data) y s of
             (s1, l) \<Rightarrow>
               (case admit eng e k data userRole dbUserId y s1 of
                  (s2, out) \<Rightarrow> (Finished, s2, l @ out)))
      | Finished \<Rightarrow> (Finished, s, []))"

text \<open>A handler that is never interrupted: it resumes at once, at most three times.\<close>

definition join_uninterrupted :: "'d engine \<Rightarrow> env \<Rightarrow> string \<Rightarrow> join_data \<Rightarrow> 'd state \<Rightarrow> 'd state \<times> effect list" where
  "join_uninterrupted eng e k data s =
     (case join_begin k data s of
        (p0, s0, out0) \<Rightarrow>
          (case join_resume eng e k data p0 s0 of
             (p1, s1, out1) \<Rightarrow>
               (case join_resume eng e k data p1 s1 of
                  (p2, s2, out2) \<Rightarrow>
                    (case join_resume eng e k data p2 s2 of
                       (p3, s3, out3) \<Rightarrow> (s3, out0 @ out1 @ out2 @ out3)))))"

text \<open>
  Interleaved joins: the server state together with the join handlers in flight. A step
  either starts the handler for an arriving \<open>join-board\<close> or resumes the \<open>i\<close>-th handler
  in flight.
\<close>

datatype action = Arrive string join_data | Resume nat

type_synonym 'd system = "'d state \<times> (string \<times> join_data \<times> pending) list"

definition act :: "'d engine \<Rightarrow> env \<Rightarrow> action \<Rightarrow> 'd system \<Rightarrow> 'd system \<times> effect list" where
  "act eng e a sys =
     (case sys of
        (s, tasks) \<Rightarrow>
          (case a of
             Arrive k data \<Rightarrow>
               (case join_begin k data s of
                  (p, s1, out) \<Rightarrow> ((s1, tasks @ [(k, data, p)]), out))
           | Resume i \<Rightarrow>
               if i < length tasks then
                 (case tasks ! i of
                    (k, data, p) \<Rightarrow>
                      (case join_resume eng e k data p s of
                         (p1, s1, out) \<Rightarrow> ((s1, tasks[i := (k, data, p1)]), out)))
               else (sys, [])))"

fun schedule :: "'d engine \<Rightarrow> env \<Rightarrow> action list \<Rightarrow> 'd system \<Rightarrow> 'd system \<times> effect list" where
  "schedule eng e [] sys = (sys, [])"
| "schedule eng e (a # as) sys =
     (case act eng e a sys of
        (sys1, out1) \<Rightarrow> (case schedule eng e as sys1 of (sys2, out2) \<Rightarrow> (sys2, out1 @ out2)))"

subsection \<open>Properties of states\<close>

text \<open>
  References are allocated in order: every reference held in a table is below the
  allocation counter and points to an object, and a room lists an object once.
\<close>

definition wf :: "'d state \<Rightarrow> bool" where
  "wf s \<longleftrightarrow>
     (\<forall>b rs. boardConnections s b = Some rs \<longrightarrow> distinct rs \<and> (\<forall>r \<in> set rs. r < nextConn s)) \<and>
     (\<forall>r. (conns s r = None) = (nextConn s \<le> r)) \<and>
     (\<forall>k r. clientConnection s k = Some r \<longrightarrow> r < nextConn s) \<and>
     (\<forall>b y. boardDocs s b = Some y \<longrightarrow> y < nextDoc s) \<and>
     (\<forall>y. (docs s y = None) = (nextDoc s \<le> y))"

text \<open>The connection objects of a room, in insertion order.\<close>

definition members_of :: "'d state \<Rightarrow> string \<Rightarrow> ClientConnection list" where
  "members_of s bId =
     concat (map (\<lambda>r. case conns s r of None \<Rightarrow> [] | Some conn \<Rightarrow> [conn]) (connections_of s bId))"

fun pairwise_free :: "('a \<Rightarrow> 'a \<Rightarrow> bool) \<Rightarrow> 'a list \<Rightarrow> bool" where
  "pairwise_free R [] = True"
| "pairwise_free R (c # cs) = (list_all (\<lambda>d. \<not> R c d \<and> \<not> R d c) cs \<and> pairwise_free R cs)"

text \<open>
  The resolved user id of a connection. The connection object keeps
  \<^verbatim>\<open>dbUserId || userId\<close> in one field (line 164), so the object does not tell whether its
  user id is the database id that the join resolved or the Firebase uid as it was sent: that
  is a fact of the join that built the object. \<open>R\<close> is the set of the connection objects
  that were built by a join which resolved a database user; for these, and for no others, the
  field \<open>userId\<close> is a resolved user id.
\<close>

definition resolved_id :: "nat set \<Rightarrow> 'd state \<Rightarrow> nat \<Rightarrow> string option" where
  "resolved_id R s r =
     (if r \<in> R then (case conns s r of None \<Rightarrow> None | Some conn \<Rightarrow> userId conn) else None)"

text \<open>
  How a \<open>join-board\<close> extends that set: the object it builds is number \<open>nextConn s\<close>, and
  it belongs to the set when the join is admitted with a \<open>dbUserId\<close> (lines 61--67).
\<close>

definition resolved_by_join :: "env \<Rightarrow> join_data \<Rightarrow> 'd state \<Rightarrow> nat set \<Rightarrow> nat set" where
  "resolved_by_join e data s R =
     (case verify_access e (prisma s) (data_boardId data) (data_userId data) of
        (hasAccess, userRole, dbUserId, l) \<Rightarrow>
          if data_boardId data \<noteq> [] \<and> hasAccess \<and> truthy dbUserId then insert (nextConn s) R else R)"

text \<open>
  At most one connection of a room per resolved user id: the resolved user ids of the room's
  connections, listed in the order of the room, are distinct.
\<close>

definition resolved_ids :: "nat set \<Rightarrow> 'd state \<Rightarrow> string \<Rightarrow> string list" where
  "resolved_ids R s bId =
     concat (map (\<lambda>r. case resolved_id R s r of None \<Rightarrow> [] | Some d \<Rightarrow> [d]) (connections_of s bId))"

definition id_unique :: "nat set \<Rightarrow> 'd state \<Rightarrow> string \<Rightarrow> bool" where
  "id_unique R s bId = distinct (resolved_ids R s bId)"

text \<open>
  At most one connection per non-null email among the connections without resolved user id:
  the emails of those connections (\<open>undefined\<close> left out, the empty string kept) are distinct.
\<close>

definition unresolved_emails :: "nat set \<Rightarrow> 'd state \<Rightarrow> string \<Rightarrow> string list" where
  "unresolved_emails R s bId =
     concat (map (\<lambda>r. case conns s r of
                         None \<Rightarrow> []
                       | Some conn \<Rightarrow>
                           (case userEmail conn of
                              None \<Rightarrow> []
                            | Some m \<Rightarrow> if resolved_id R s r = None then [m] else []))
               (connections_of s bId))"

text \<open>
  What the test of lines 183--184 keeps unique: a non-empty email, among all connections of
  the room, with or without resolved user id.
\<close>

definition shares_email :: "ClientConnection \<Rightarrow> ClientConnection \<Rightarrow> bool" where
  "shares_email c d = (truthy (userEmail c) \<and> userEmail c = userEmail d)"

definition email_unique :: "'d state \<Rightarrow> string \<Rightarrow> bool" where
  "email_unique s bId = pairwise_free shares_email (members_of s bId)"

text \<open>
  An existing connection shares an identity with a join (section 4.2 of the specification:
  it shares the resolved user id or the email): the join resolved a user id and it is the
  connection's resolved user id, or the join carries a non-empty email and it is the
  connection's email.
\<close>

definition shares_identity :: "nat set \<Rightarrow> 'd state \<Rightarrow> nat \<Rightarrow> string option \<Rightarrow> string option \<Rightarrow> bool" where
  "shares_identity R s r dbUserId email =
     ((truthy dbUserId \<and> resolved_id R s r = dbUserId) \<or>
      (truthy email \<and> (case conns s r of None \<Rightarrow> False | Some conn \<Rightarrow> userEmail conn = email)))"

subsection \<open>The access policy in the words of the specification\<close>




subsection \<open>What a fresh handle holds\<close>

text \<open>
  The content of a document built from the persisted snapshot alone: the empty document with
  the snapshot merged in, or the empty document when there is no snapshot, the lookup
  rejects or the library refuses the bytes.
\<close>

definition snapshot_of :: "env \<Rightarrow> database \<Rightarrow> string \<Rightarrow> bytes option" where
  "snapshot_of e db bId =
     (if fails e BoardFindLoad then None
      else case boards db bId of None \<Rightarrow> None | Some board \<Rightarrow> yDocState board)"

definition restored :: "'d engine \<Rightarrow> bytes option \<Rightarrow> 'd" where
  "restored eng snapshot =
     (case snapshot of
        None \<Rightarrow> new_Doc eng
      | Some persisted \<Rightarrow>
          (case applyUpdate eng (new_Doc eng) persisted of
             None \<Rightarrow> new_Doc eng
           | Some (c, _) \<Rightarrow> c))"

subsection \<open>A concrete engine and a concrete deployment\<close>

text \<open>
  A document engine that meets the contract the layer relies on (merging is commutative and
  idempotent): a grow-only set of bytes, kept sorted. An update is a length byte followed by
  that many items; anything else is refused. The \<open>update\<close> event carries the items that were
  new, and does not fire when there were none.
\<close>

definition decode_items :: "bytes \<Rightarrow> bytes option" where
  "decode_items u =
     (case u of [] \<Rightarrow> None | n # xs \<Rightarrow> if unat n = length xs then Some xs else None)"

definition encode_items :: "bytes \<Rightarrow> bytes" where
  "encode_items xs = of_nat (length xs) # xs"

definition gset_engine :: "bytes engine" where
  "gset_engine =
     \<lparr> new_Doc = [],
       applyUpdate = (\<lambda>d u.
         case decode_items u of
           None \<Rightarrow> None
         | Some xs \<Rightarrow>
             (let fresh = filter (\<lambda>x. x \<notin> set d) (remdups xs)
              in Some (foldr insort fresh d,
                       if fresh = [] then None else Some (encode_items fresh)))),
       encodeStateAsUpdate = encode_items \<rparr>"

definition quiet :: env where
  "quiet = \<lparr> fails = (\<lambda>_. False), random_index = 3, now = 100 \<rparr>"

text \<open>
  Two users, \<open>ann\<close> (Firebase uid \<open>f-ann\<close>) and \<open>bob\<close>; a public board \<open>b1\<close> owned by
  \<open>ann\<close> with \<open>bob\<close> as editor and the snapshot \<open>{7}\<close>; a private board \<open>b2\<close>.
\<close>

definition demo_db :: database where
  "demo_db =
     \<lparr> users = [''f-ann'' \<mapsto> ''ann'', ''f-bob'' \<mapsto> ''bob''],
       boards =
         [''b1'' \<mapsto> \<lparr> ownerId = ''ann'', isPublic = True,
                       members = [\<lparr>member_userId = ''bob'', member_role = ''editor''\<rparr>],
                       yDocState = Some [1, 7], lastModified = 0 \<rparr>,
          ''b2'' \<mapsto> \<lparr> ownerId = ''bob'', isPublic = False, members = [],
                       yDocState = None, lastModified = 0 \<rparr>] \<rparr>"

definition request :: "string \<Rightarrow> string option \<Rightarrow> string option \<Rightarrow> join_data" where
  "request b u m = \<lparr> data_boardId = b, data_userId = u, data_userName = None, data_userEmail = m \<rparr>"


text \<open>An event that is a \<open>join-board\<close> for the given board.\<close>

definition joins_board :: "string \<Rightarrow> event \<Rightarrow> bool" where
  "joins_board bId ev = (case ev of Join_board k d \<Rightarrow> data_boardId d = bId | _ \<Rightarrow> False)"

text \<open>Ann has joined board \<open>b1\<close> on socket \<open>s1\<close>.\<close>

definition ann_joined :: "bytes state" where
  "ann_joined =
     fst (join_board gset_engine quiet ''s1'' (request ''b1'' (Some ''f-ann'') None) (init demo_db))"

text \<open>Ann has left again, and Bob has joined the other board in the meantime.\<close>

definition meanwhile :: "(env \<times> event) list" where
  "meanwhile = [(quiet, Join_board ''s3'' (request ''b2'' (Some ''f-bob'') None))]"

definition released :: "bytes state" where
  "released = fst (run gset_engine meanwhile (fst (socket_disconnect ''s1'' ann_joined)))"

text \<open>An effect that is a line on the error console.\<close>

definition is_log :: "effect \<Rightarrow> bool" where
  "is_log x = (case x of ConsoleError _ \<Rightarrow> True | _ \<Rightarrow> False)"


text \<open>Two anonymous callers join the public board, each sending the empty string as email.\<close>

definition blank_twice :: "bytes state" where
  "blank_twice =
     fst (run gset_engine
            [(quiet, Join_board ''s1'' (request ''b1'' None (Some [])))
            ,(quiet, Join_board ''s2'' (request ''b1'' None (Some [])))] (init demo_db))"

text \<open>Bob joins board \<open>b1\<close> after Ann, on socket \<open>s3\<close>; then Ann joins again from \<open>s2\<close>.\<close>

definition with_bob :: "bytes state" where
  "with_bob =
     fst (join_board gset_engine quiet ''s3'' (request ''b1'' (Some ''f-bob'') None) ann_joined)"

definition ann_returns :: "bytes state" where
  "ann_returns =
     fst (join_board gset_engine quiet ''s2'' (request ''b1'' (Some ''f-ann'') None) with_bob)"

text \<open>
  An anonymous caller with the email \<open>c@x\<close> joins the public board from socket \<open>s1\<close>, then
  again from socket \<open>s2\<close>.
\<close>

definition carol_joined :: "bytes state" where
  "carol_joined =
     fst (join_board gset_engine quiet ''s1'' (request ''b1'' None (Some ''c@x'')) (init demo_db))"

definition carol_twice :: "bytes state" where
  "carol_twice =
     fst (join_board gset_engine quiet ''s2'' (request ''b1'' None (Some ''c@x'')) carol_joined)"

text \<open>Bob joins board \<open>b1\<close> on socket \<open>s3\<close>, as the first in the room.\<close>

definition bob_joined :: "bytes state" where
  "bob_joined =
     fst (join_board gset_engine quiet ''s3'' (request ''b1'' (Some ''f-bob'') None) (init demo_db))"



text \<open>The database refuses the write of a save; everything else works.\<close>

definition write_fails :: env where
  "write_fails = \<lparr> fails = (\<lambda>c. c = BoardUpdateWrite), random_index = 3, now = 100 \<rparr>"

text \<open>
  Bob, alone on board \<open>b1\<close>, adds the item \<open>9\<close> while the database refuses writes; he opens
  his board \<open>b2\<close> on the same socket; then the socket disconnects.
\<close>

definition switch_boards :: "(env \<times> event) list" where
  "switch_boards =
     [(quiet, Join_board ''s3'' (request ''b1'' (Some ''f-bob'') None)),
      (write_fails, Board_update ''s3'' (Some [1, 9])),
      (quiet, Join_board ''s3'' (request ''b2'' (Some ''f-bob'') None)),
      (quiet, Disconnect ''s3'')]"

definition bob_gone :: "bytes state" where
  "bob_gone = fst (run gset_engine switch_boards (init demo_db))"

section \<open>Messages before a join\<close>

text \<open>
  C9. A \<open>sync-state\<close>, \<open>board-update\<close>, \<open>cursor-move\<close> or \<open>awareness-update\<close> message on
  a socket whose \<open>clientConnection\<close> is still \<open>null\<close> (no join has completed on it) returns
  at once: the whole server state, with rooms, documents and database, is as before, and
  nothing is emitted.
\<close>

theorem unjoined_messages_ignored:
  "clientConnection s k = None \<Longrightarrow>
     sync_state eng e k d1 s = (s, []) \<and>
     board_update eng e k d2 s = (s, []) \<and>
     cursor_move k d3 s = (s, []) \<and>
     awareness_update k d4 s = (s, [])"
  by (simp add: sync_state_def board_update_def cursor_move_def awareness_update_def)

theorem unjoined_messages_ignored_witness:
  "clientConnection ann_joined ''s9'' = None \<and>
   sync_state gset_engine quiet ''s9'' (Some [1, 9]) ann_joined = (ann_joined, []) \<and>
   board_update gset_engine quiet ''s9'' (Some [1, 9]) ann_joined = (ann_joined, []) \<and>
   cursor_move ''s9'' (Some (JObject [(''x'', JNumber (Finite 1)), (''y'', JNumber (Finite 2))])) ann_joined =
     (ann_joined, []) \<and>
   awareness_update ''s9'' (Some ''typing'') ann_joined = (ann_joined, [])"
proof -
  have h: "clientConnection ann_joined ''s9'' = None"
    by code_simp
  show ?thesis
    using h unjoined_messages_ignored [OF h, of gset_engine quiet "Some [1, 9]" "Some [1, 9]"
        "Some (JObject [(''x'', JNumber (Finite 1)), (''y'', JNumber (Finite 2))])" "Some ''typing''"]
    by simp
qed

section \<open>Access resolution\<close>


lemma find_never [simp]: "find (\<lambda>_. False) xs = None"
  by (induction xs) auto





section \<open>How the steps of a join change the state\<close>

lemma load_or_create_existing:
  "boardDocs s b = Some y \<Longrightarrow> load_or_create eng e b s = (y, s, [])"
  by (simp add: load_or_create_def)

lemma load_persisted_new:
  assumes "docs s y = Some \<lparr>content = new_Doc eng, observers = []\<rparr>"
  shows "fst (load_persisted eng e b y s) =
           s\<lparr>boardDocs := (boardDocs s)(b \<mapsto> y),
             docs := (docs s)(y \<mapsto> \<lparr>content = restored eng (snapshot_of e (prisma s) b), observers = [b]\<rparr>)\<rparr>"
proof (cases "snapshot_of e (prisma s) b")
  case None
  then show ?thesis
    using assms
    by (auto simp: load_persisted_def snapshot_of_def board_findUnique_def restored_def install_doc_def
             split: if_splits option.splits)
next
  case (Some persisted)
  then have b: "board_findUnique e BoardFindLoad (prisma s) b \<noteq> None"
    and f: "\<exists>board. boards (prisma s) b = Some board \<and> yDocState board = Some persisted"
    by (auto simp: snapshot_of_def board_findUnique_def split: if_splits option.splits)
  then obtain board where bd: "board_findUnique e BoardFindLoad (prisma s) b = Some (Some board)"
     "yDocState board = Some persisted"
    using Some by (auto simp: snapshot_of_def board_findUnique_def split: if_splits option.splits)
  show ?thesis
  proof (cases "applyUpdate eng (new_Doc eng) persisted")
    case None
    then show ?thesis
      using assms Some bd
      by (simp add: load_persisted_def Y_applyUpdate_def restored_def install_doc_def)
  next
    case (Some a)
    obtain c ev where a: "a = (c, ev)" by (cases a)
    show ?thesis
      using assms \<open>snapshot_of e (prisma s) b = Some persisted\<close> bd Some a
      by (cases ev) (simp_all add: load_persisted_def Y_applyUpdate_def restored_def install_doc_def)
  qed
qed

lemma load_or_create_fresh:
  assumes "boardDocs s b = None"
  shows "fst (load_or_create eng e b s) = nextDoc s"
    "fst (snd (load_or_create eng e b s)) =
       s\<lparr>boardDocs := (boardDocs s)(b \<mapsto> nextDoc s),
         docs := (docs s)(nextDoc s \<mapsto>
            \<lparr>content = restored eng (snapshot_of e (prisma s) b), observers = [b]\<rparr>),
         nextDoc := Suc (nextDoc s)\<rparr>"
proof -
  let ?s1 = "s\<lparr>docs := (docs s)(nextDoc s \<mapsto> \<lparr>content = new_Doc eng, observers = []\<rparr>),
               nextDoc := Suc (nextDoc s)\<rparr>"
  have lp: "fst (load_persisted eng e b (nextDoc s) ?s1) =
      ?s1\<lparr>boardDocs := (boardDocs ?s1)(b \<mapsto> nextDoc s),
          docs := (docs ?s1)(nextDoc s \<mapsto> \<lparr>content = restored eng (snapshot_of e (prisma ?s1) b), observers = [b]\<rparr>)\<rparr>"
    by (rule load_persisted_new) simp
  show "fst (load_or_create eng e b s) = nextDoc s"
    using assms by (simp add: load_or_create_def alloc_doc_def split: prod.splits)
  have "fst (snd (load_or_create eng e b s)) = fst (load_persisted eng e b (nextDoc s) ?s1)"
    using assms by (simp add: load_or_create_def alloc_doc_def split: prod.splits)
  then show "fst (snd (load_or_create eng e b s)) =
       s\<lparr>boardDocs := (boardDocs s)(b \<mapsto> nextDoc s),
         docs := (docs s)(nextDoc s \<mapsto>
            \<lparr>content = restored eng (snapshot_of e (prisma s) b), observers = [b]\<rparr>),
         nextDoc := Suc (nextDoc s)\<rparr>"
    by (simp add: lp)
qed


lemma wf_init: "wf (init db)"
  by (simp add: wf_def init_def)

lemma wf_room:
  "wf s \<Longrightarrow> boardConnections s b = Some rs \<Longrightarrow> distinct rs \<and> (\<forall>r \<in> set rs. r < nextConn s)"
  unfolding wf_def by blast

lemma wf_connections_of:
  assumes "wf s"
  shows "distinct (connections_of s b)" "r \<in> set (connections_of s b) \<Longrightarrow> r < nextConn s"
proof -
  show "distinct (connections_of s b)"
  proof (cases "boardConnections s b")
    case None then show ?thesis by (simp add: connections_of_def)
  next
    case (Some rs) then show ?thesis using wf_room [OF assms Some] by (simp add: connections_of_def)
  qed
  show "r \<in> set (connections_of s b) \<Longrightarrow> r < nextConn s"
  proof (cases "boardConnections s b")
    case None then show "r \<in> set (connections_of s b) \<Longrightarrow> r < nextConn s"
      by (simp add: connections_of_def)
  next
    case (Some rs) then show "r \<in> set (connections_of s b) \<Longrightarrow> r < nextConn s"
      using wf_room [OF assms Some] by (simp add: connections_of_def)
  qed
qed

lemma wf_conns: "wf s \<Longrightarrow> (conns s r = None) = (nextConn s \<le> r)"
  unfolding wf_def by blast

lemma wf_client: "wf s \<Longrightarrow> clientConnection s k = Some r \<Longrightarrow> r < nextConn s"
  unfolding wf_def by blast

lemma wf_boardDocs: "wf s \<Longrightarrow> boardDocs s b = Some y \<Longrightarrow> y < nextDoc s"
  unfolding wf_def by blast

lemma wf_docs: "wf s \<Longrightarrow> (docs s y = None) = (nextDoc s \<le> y)"
  unfolding wf_def by blast

lemma wfI:
  assumes "\<And>b rs. boardConnections s b = Some rs \<Longrightarrow> distinct rs \<and> (\<forall>r \<in> set rs. r < nextConn s)"
    and "\<And>r. (conns s r = None) = (nextConn s \<le> r)"
    and "\<And>k r. clientConnection s k = Some r \<Longrightarrow> r < nextConn s"
    and "\<And>b y. boardDocs s b = Some y \<Longrightarrow> y < nextDoc s"
    and "\<And>y. (docs s y = None) = (nextDoc s \<le> y)"
  shows "wf s"
  unfolding wf_def using assms by blast

text \<open>A state that differs only in rooms, properties and database is as well-formed.\<close>

lemma wf_cong:
  assumes "wf s" "boardConnections s' = boardConnections s"
    "\<And>r. (conns s' r = None) = (conns s r = None)"
    "nextConn s' = nextConn s" "clientConnection s' = clientConnection s"
    "boardDocs s' = boardDocs s" "\<And>y. (docs s' y = None) = (docs s y = None)" "nextDoc s' = nextDoc s"
  shows "wf s'"
  using assms unfolding wf_def by simp

lemma admit_fields:
  "boardConnections (fst (admit eng e k data userRole dbUserId y s)) =
     (boardConnections s)(data_boardId data \<mapsto>
        filter (\<lambda>x. \<not> is_same_user (s\<lparr>conns := (conns s)(nextConn s \<mapsto> new_connection e k data dbUserId)\<rparr>)
                       dbUserId (data_userEmail data) x)
          (connections_of s (data_boardId data)) @ [nextConn s])"
  "conns (fst (admit eng e k data userRole dbUserId y s)) =
     (conns s)(nextConn s \<mapsto> new_connection e k data dbUserId)"
  "nextConn (fst (admit eng e k data userRole dbUserId y s)) = Suc (nextConn s)"
  "clientConnection (fst (admit eng e k data userRole dbUserId y s)) = (clientConnection s)(k \<mapsto> nextConn s)"
  "boardDocs (fst (admit eng e k data userRole dbUserId y s)) = boardDocs s"
  "docs (fst (admit eng e k data userRole dbUserId y s)) = docs s"
  "nextDoc (fst (admit eng e k data userRole dbUserId y s)) = nextDoc s"
  "rooms (fst (admit eng e k data userRole dbUserId y s)) = rooms s"
  "prisma (fst (admit eng e k data userRole dbUserId y s)) = prisma s"
  by (simp_all add: admit_def Let_def connections_of_def is_same_user_def)

lemma wf_admit:
  assumes "wf s"
  shows "wf (fst (admit eng e k data userRole dbUserId y s))"
proof (rule wfI)
  fix b rs
  assume a: "boardConnections (fst (admit eng e k data userRole dbUserId y s)) b = Some rs"
  show "distinct rs \<and> (\<forall>r \<in> set rs. r < nextConn (fst (admit eng e k data userRole dbUserId y s)))"
  proof (cases "b = data_boardId data")
    case True
    have "nextConn s \<notin> set (connections_of s (data_boardId data))"
      using wf_connections_of(2) [OF assms, where r = "nextConn s" and b = "data_boardId data"] by auto
    then show ?thesis
      using a True wf_connections_of [OF assms, where b = "data_boardId data"]
      by (auto simp: admit_fields less_Suc_eq)
  next
    case False
    then show ?thesis
      using a wf_room [OF assms, of b rs] by (auto simp: admit_fields less_Suc_eq)
  qed
next
  fix r
  show "(conns (fst (admit eng e k data userRole dbUserId y s)) r = None) =
        (nextConn (fst (admit eng e k data userRole dbUserId y s)) \<le> r)"
    using wf_conns [OF assms, of r] by (auto simp: admit_fields)
next
  fix k' r
  assume "clientConnection (fst (admit eng e k data userRole dbUserId y s)) k' = Some r"
  then show "r < nextConn (fst (admit eng e k data userRole dbUserId y s))"
    using wf_client [OF assms, of k' r] by (auto simp: admit_fields less_Suc_eq split: if_splits)
next
  fix b y'
  assume "boardDocs (fst (admit eng e k data userRole dbUserId y s)) b = Some y'"
  then show "y' < nextDoc (fst (admit eng e k data userRole dbUserId y s))"
    using wf_boardDocs [OF assms, of b y'] by (simp add: admit_fields)
next
  fix y'
  show "(docs (fst (admit eng e k data userRole dbUserId y s)) y' = None) =
        (nextDoc (fst (admit eng e k data userRole dbUserId y s)) \<le> y')"
    using wf_docs [OF assms, of y'] by (simp add: admit_fields)
qed

lemma wf_load_or_create:
  assumes "wf s"
  shows "wf (fst (snd (load_or_create eng e b s)))"
proof (cases "boardDocs s b")
  case (Some y)
  then show ?thesis using assms by (simp add: load_or_create_existing)
next
  case None
  show ?thesis
    unfolding load_or_create_fresh(2) [OF None]
  proof (rule wfI)
    fix b' rs
    assume "boardConnections (s\<lparr>boardDocs := (boardDocs s)(b \<mapsto> nextDoc s),
         docs := (docs s)(nextDoc s \<mapsto>
            \<lparr>content = restored eng (snapshot_of e (prisma s) b), observers = [b]\<rparr>),
         nextDoc := Suc (nextDoc s)\<rparr>) b' = Some rs"
    then show "distinct rs \<and> (\<forall>r \<in> set rs. r < nextConn (s\<lparr>boardDocs := (boardDocs s)(b \<mapsto> nextDoc s),
         docs := (docs s)(nextDoc s \<mapsto>
            \<lparr>content = restored eng (snapshot_of e (prisma s) b), observers = [b]\<rparr>),
         nextDoc := Suc (nextDoc s)\<rparr>))"
      using wf_room [OF assms, of b' rs] by simp
  qed (use assms in \<open>auto simp: wf_conns wf_docs dest: wf_client wf_boardDocs split: if_splits\<close>)
qed


lemma socket_join_fields [simp]:
  "boardConnections (socket_join k b s) = boardConnections s"
  "boardDocs (socket_join k b s) = boardDocs s"
  "conns (socket_join k b s) = conns s" "nextConn (socket_join k b s) = nextConn s"
  "docs (socket_join k b s) = docs s" "nextDoc (socket_join k b s) = nextDoc s"
  "clientConnection (socket_join k b s) = clientConnection s"
  "props (socket_join k b s) = props s" "prisma (socket_join k b s) = prisma s"
  "rooms (socket_join k b s) = (rooms s)(b := insert k (rooms s b))"
  by (simp_all add: socket_join_def)

lemma wf_socket_join: "wf s \<Longrightarrow> wf (socket_join k b s)"
  by (erule wf_cong) simp_all

lemma join_board_no_board: "data_boardId data = [] \<Longrightarrow> fst (join_board eng e k data s) = s"
  by (simp add: join_board_def)

lemma join_board_denied:
  "\<not> fst (verify_access e (prisma s) (data_boardId data) (data_userId data)) \<Longrightarrow>
     fst (join_board eng e k data s) = s"
  by (cases "verify_access e (prisma s) (data_boardId data) (data_userId data)")
     (simp add: join_board_def Let_def)

lemma join_board_admitted:
  assumes "data_boardId data \<noteq> []"
    and "verify_access e (prisma s) (data_boardId data) (data_userId data) = (True, userRole, dbUserId, l)"
  shows "join_board eng e k data s =
     (fst (admit eng e k data userRole dbUserId
             (fst (load_or_create eng e (data_boardId data) (socket_join k (data_boardId data) s)))
             (fst (snd (load_or_create eng e (data_boardId data) (socket_join k (data_boardId data) s))))),
      l @ snd (snd (load_or_create eng e (data_boardId data) (socket_join k (data_boardId data) s))) @
      snd (admit eng e k data userRole dbUserId
             (fst (load_or_create eng e (data_boardId data) (socket_join k (data_boardId data) s)))
             (fst (snd (load_or_create eng e (data_boardId data) (socket_join k (data_boardId data) s))))))"
  using assms by (simp add: join_board_def Let_def split: prod.splits)

lemma wf_join_board:
  assumes "wf s"
  shows "wf (fst (join_board eng e k data s))"
proof (cases "data_boardId data = []")
  case True
  then show ?thesis using assms by (simp add: join_board_no_board)
next
  case False
  obtain h userRole dbUserId l where
    v: "verify_access e (prisma s) (data_boardId data) (data_userId data) = (h, userRole, dbUserId, l)"
    by (cases "verify_access e (prisma s) (data_boardId data) (data_userId data)") auto
  show ?thesis
  proof (cases h)
    case False
    then show ?thesis using assms v by (simp add: join_board_denied)
  next
    case True
    show ?thesis
      using v True
      by (simp add: join_board_admitted [OF False] wf_admit wf_load_or_create wf_socket_join assms)
  qed
qed

lemma Y_applyUpdate_frame:
  assumes "Y_applyUpdate eng e y u s = Some (s', l)"
  shows "boardConnections s' = boardConnections s \<and> boardDocs s' = boardDocs s \<and>
    conns s' = conns s \<and> nextConn s' = nextConn s \<and> nextDoc s' = nextDoc s \<and>
    clientConnection s' = clientConnection s \<and> props s' = props s \<and> rooms s' = rooms s \<and>
    (\<forall>z. (docs s' z = None) = (docs s z = None))"
  using assms
  by (auto simp: Y_applyUpdate_def Let_def split: option.splits prod.splits if_splits)

lemma wf_Y_applyUpdate:
  assumes "wf s" "Y_applyUpdate eng e y u s = Some (s', l)"
  shows "wf s'"
  using Y_applyUpdate_frame [OF assms(2)] by (intro wf_cong [OF assms(1)]) simp_all

lemma wf_sync_state: "wf s \<Longrightarrow> wf (fst (sync_state eng e k d s))"
  by (auto simp: sync_state_def split: option.splits intro: wf_Y_applyUpdate)

lemma wf_board_update: "wf s \<Longrightarrow> wf (fst (board_update eng e k d s))"
  by (auto simp: board_update_def split: option.splits intro: wf_Y_applyUpdate)

lemma wf_cursor_move: "wf s \<Longrightarrow> wf (fst (cursor_move k d s))"
proof -
  assume w: "wf s"
  have "\<And>r conn c. conns s r = Some conn \<Longrightarrow> wf (s\<lparr>conns := (conns s)(r \<mapsto> c)\<rparr>)"
    by (rule wf_cong [OF w]) auto
  then show ?thesis
    using w by (auto simp: cursor_move_def split: option.splits if_splits)
qed

lemma wf_awareness_update: "wf s \<Longrightarrow> wf (fst (awareness_update k d s))"
  by (auto simp: awareness_update_def split: option.splits)

lemma remove_connection_fields:
  "connections_of (remove_connection b r s) b' =
     (if b' = b then removeAll r (connections_of s b) else connections_of s b')"
  "conns (remove_connection b r s) = conns s" "nextConn (remove_connection b r s) = nextConn s"
  "docs (remove_connection b r s) = docs s" "nextDoc (remove_connection b r s) = nextDoc s"
  "clientConnection (remove_connection b r s) = clientConnection s"
  "props (remove_connection b r s) = props s" "rooms (remove_connection b r s) = rooms s"
  "prisma (remove_connection b r s) = prisma s"
  by (auto simp: remove_connection_def connections_of_def split: option.splits)

lemma remove_connection_boardDocs:
  "boardDocs (remove_connection b r s) b' = None \<or> boardDocs (remove_connection b r s) b' = boardDocs s b'"
  by (auto simp: remove_connection_def split: option.splits)

lemma remove_connection_room:
  "boardConnections (remove_connection b r s) b' = Some rs \<Longrightarrow>
     (b' \<noteq> b \<and> boardConnections s b' = Some rs) \<or>
     (\<exists>rs0. b' = b \<and> boardConnections s b = Some rs0 \<and> rs = removeAll r rs0)"
  by (auto simp: remove_connection_def split: option.splits if_splits)

lemma wf_remove_connection:
  assumes "wf s"
  shows "wf (remove_connection b r s)"
proof (rule wfI)
  fix b' rs
  assume "boardConnections (remove_connection b r s) b' = Some rs"
  then show "distinct rs \<and> (\<forall>x \<in> set rs. x < nextConn (remove_connection b r s))"
    using wf_room [OF assms]
    by (auto simp: remove_connection_fields distinct_removeAll dest!: remove_connection_room)
next
  fix b' y
  assume "boardDocs (remove_connection b r s) b' = Some y"
  then show "y < nextDoc (remove_connection b r s)"
    using remove_connection_boardDocs [of b r s b'] wf_boardDocs [OF assms, of b' y]
    by (auto simp: remove_connection_fields)
qed (use assms in \<open>auto simp: remove_connection_fields wf_conns wf_docs dest: wf_client\<close>)

lemma wf_on_disconnect: "wf s \<Longrightarrow> wf (fst (on_disconnect k s))"
proof -
  assume w: "wf s"
  have "\<And>b r. wf ((remove_connection b r s)\<lparr>clientConnection := (clientConnection (remove_connection b r s))(k := None)\<rparr>)"
  proof -
    fix b r
    have w1: "wf (remove_connection b r s)" by (rule wf_remove_connection [OF w])
    show "wf ((remove_connection b r s)\<lparr>clientConnection := (clientConnection (remove_connection b r s))(k := None)\<rparr>)"
      using w1 unfolding wf_def by (auto split: if_splits)
  qed
  then show ?thesis
    using w by (auto simp: on_disconnect_def Let_def split: option.splits)
qed

lemma wf_socket_disconnect: "wf s \<Longrightarrow> wf (fst (socket_disconnect k s))"
  unfolding socket_disconnect_def
  by (rule wf_on_disconnect, erule wf_cong) simp_all

lemma wf_handle: "wf s \<Longrightarrow> wf (fst (handle eng e ev s))"
  by (cases ev)
     (simp_all add: handle_def wf_join_board wf_sync_state wf_board_update wf_cursor_move
        wf_awareness_update wf_socket_disconnect)

lemma wf_run: "wf s \<Longrightarrow> wf (fst (run eng evs s))"
proof (induction evs arbitrary: s)
  case Nil
  then show ?case by simp
next
  case (Cons x evs)
  obtain e ev where x: "x = (e, ev)" by (cases x)
  show ?case
    using Cons.IH [OF wf_handle [OF Cons.prems, of eng e ev]]
    by (simp add: x case_prod_beta)
qed

section \<open>The concrete states, step by step\<close>

lemmas step_defs =
  join_board_def verify_access_def anonymous_access_def member_access_def
  decide_access_def include_members_def user_findUnique_def board_findUnique_def
  load_or_create_def alloc_doc_def load_persisted_def install_doc_def
  Y_applyUpdate_def admit_def new_connection_def is_same_user_def same_user_def left_notice_def
  active_users_def user_entry_def role_of_def connections_of_def getRandomColor_def colors_def
  truthy_def or_else_def socket_join_def Array_from_def Let_def

lemmas demo_defs = gset_engine_def decode_items_def encode_items_def quiet_def demo_db_def
  request_def init_def

lemma ann_joined_eq:
  "ann_joined =
     \<lparr> boardConnections = [''b1'' \<mapsto> [0]], boardDocs = [''b1'' \<mapsto> 0],
       conns = [0 \<mapsto> \<lparr>socket = ''s1'', boardId = ''b1'', userId = Some ''ann'',
                 userName = Some ''Anonymous'', userEmail = None, color = Some ''#FFA07A'', cursor = None\<rparr>],
       nextConn = 1,
       docs = [0 \<mapsto> \<lparr>content = [7], observers = [''b1'']\<rparr>], nextDoc = 1,
       clientConnection = [''s1'' \<mapsto> 0],
       props = [''s1'' \<mapsto> \<lparr>sp_userRole = ''owner'', sp_boardId = ''b1'', sp_dbUserId = Some ''ann''\<rparr>],
       rooms = (\<lambda>_. {})(''b1'' := {''s1''}),
       prisma = demo_db \<rparr>"
  unfolding ann_joined_def
  apply (simp add: step_defs demo_defs)
  done


lemma with_bob_eq:
  "with_bob =
     \<lparr> boardConnections = [''b1'' \<mapsto> [0, 1]], boardDocs = [''b1'' \<mapsto> 0],
       conns = [0 \<mapsto> \<lparr>socket = ''s1'', boardId = ''b1'', userId = Some ''ann'',
                 userName = Some ''Anonymous'', userEmail = None, color = Some ''#FFA07A'', cursor = None\<rparr>,
                1 \<mapsto> \<lparr>socket = ''s3'', boardId = ''b1'', userId = Some ''bob'',
                 userName = Some ''Anonymous'', userEmail = None, color = Some ''#FFA07A'', cursor = None\<rparr>],
       nextConn = 2,
       docs = [0 \<mapsto> \<lparr>content = [7], observers = [''b1'']\<rparr>], nextDoc = 1,
       clientConnection = [''s1'' \<mapsto> 0, ''s3'' \<mapsto> 1],
       props = [''s1'' \<mapsto> \<lparr>sp_userRole = ''owner'', sp_boardId = ''b1'', sp_dbUserId = Some ''ann''\<rparr>,
                ''s3'' \<mapsto> \<lparr>sp_userRole = ''editor'', sp_boardId = ''b1'', sp_dbUserId = Some ''bob''\<rparr>],
       rooms = (\<lambda>_. {})(''b1'' := {''s3'', ''s1''}),
       prisma = demo_db \<rparr>"
  unfolding with_bob_def ann_joined_eq
  by (simp add: step_defs demo_defs)

lemma ann_returns_eq:
  "ann_returns =
     \<lparr> boardConnections = [''b1'' \<mapsto> [1, 2]], boardDocs = [''b1'' \<mapsto> 0],
       conns = [0 \<mapsto> \<lparr>socket = ''s1'', boardId = ''b1'', userId = Some ''ann'',
                 userName = Some ''Anonymous'', userEmail = None, color = Some ''#FFA07A'', cursor = None\<rparr>,
                1 \<mapsto> \<lparr>socket = ''s3'', boardId = ''b1'', userId = Some ''bob'',
                 userName = Some ''Anonymous'', userEmail = None, color = Some ''#FFA07A'', cursor = None\<rparr>,
                2 \<mapsto> \<lparr>socket = ''s2'', boardId = ''b1'', userId = Some ''ann'',
                 userName = Some ''Anonymous'', userEmail = None, color = Some ''#FFA07A'', cursor = None\<rparr>],
       nextConn = 3,
       docs = [0 \<mapsto> \<lparr>content = [7], observers = [''b1'']\<rparr>], nextDoc = 1,
       clientConnection = [''s1'' \<mapsto> 0, ''s3'' \<mapsto> 1, ''s2'' \<mapsto> 2],
       props = [''s1'' \<mapsto> \<lparr>sp_userRole = ''owner'', sp_boardId = ''b1'', sp_dbUserId = Some ''ann''\<rparr>,
                ''s3'' \<mapsto> \<lparr>sp_userRole = ''editor'', sp_boardId = ''b1'', sp_dbUserId = Some ''bob''\<rparr>,
                ''s2'' \<mapsto> \<lparr>sp_userRole = ''owner'', sp_boardId = ''b1'', sp_dbUserId = Some ''ann''\<rparr>],
       rooms = (\<lambda>_. {})(''b1'' := {''s2'', ''s3'', ''s1''}),
       prisma = demo_db \<rparr>"
  unfolding ann_returns_def with_bob_eq
  by (simp add: step_defs demo_defs)


lemma carol_joined_eq:
  "carol_joined =
     \<lparr> boardConnections = [''b1'' \<mapsto> [0]], boardDocs = [''b1'' \<mapsto> 0],
       conns = [0 \<mapsto> \<lparr>socket = ''s1'', boardId = ''b1'', userId = None,
                 userName = Some ''Anonymous'', userEmail = Some ''c@x'', color = Some ''#FFA07A'', cursor = None\<rparr>],
       nextConn = 1,
       docs = [0 \<mapsto> \<lparr>content = [7], observers = [''b1'']\<rparr>], nextDoc = 1,
       clientConnection = [''s1'' \<mapsto> 0],
       props = [''s1'' \<mapsto> \<lparr>sp_userRole = ''viewer'', sp_boardId = ''b1'', sp_dbUserId = None\<rparr>],
       rooms = (\<lambda>_. {})(''b1'' := {''s1''}),
       prisma = demo_db \<rparr>"
  unfolding carol_joined_def
  by (simp add: step_defs demo_defs)

lemma blank_twice_eq:
  "blank_twice =
     \<lparr> boardConnections = [''b1'' \<mapsto> [0, 1]], boardDocs = [''b1'' \<mapsto> 0],
       conns = [0 \<mapsto> \<lparr>socket = ''s1'', boardId = ''b1'', userId = None,
                 userName = Some ''Anonymous'', userEmail = Some [], color = Some ''#FFA07A'', cursor = None\<rparr>,
                1 \<mapsto> \<lparr>socket = ''s2'', boardId = ''b1'', userId = None,
                 userName = Some ''Anonymous'', userEmail = Some [], color = Some ''#FFA07A'', cursor = None\<rparr>],
       nextConn = 2,
       docs = [0 \<mapsto> \<lparr>content = [7], observers = [''b1'']\<rparr>], nextDoc = 1,
       clientConnection = [''s1'' \<mapsto> 0, ''s2'' \<mapsto> 1],
       props = [''s1'' \<mapsto> \<lparr>sp_userRole = ''viewer'', sp_boardId = ''b1'', sp_dbUserId = None\<rparr>,
                ''s2'' \<mapsto> \<lparr>sp_userRole = ''viewer'', sp_boardId = ''b1'', sp_dbUserId = None\<rparr>],
       rooms = (\<lambda>_. {})(''b1'' := {''s2'', ''s1''}),
       prisma = demo_db \<rparr>"
proof -
  have one: "fst (join_board gset_engine quiet ''s1'' (request ''b1'' None (Some [])) (init demo_db)) =
     \<lparr> boardConnections = [''b1'' \<mapsto> [0]], boardDocs = [''b1'' \<mapsto> 0],
       conns = [0 \<mapsto> \<lparr>socket = ''s1'', boardId = ''b1'', userId = None,
                 userName = Some ''Anonymous'', userEmail = Some [], color = Some ''#FFA07A'', cursor = None\<rparr>],
       nextConn = 1,
       docs = [0 \<mapsto> \<lparr>content = [7], observers = [''b1'']\<rparr>], nextDoc = 1,
       clientConnection = [''s1'' \<mapsto> 0],
       props = [''s1'' \<mapsto> \<lparr>sp_userRole = ''viewer'', sp_boardId = ''b1'', sp_dbUserId = None\<rparr>],
       rooms = (\<lambda>_. {})(''b1'' := {''s1''}),
       prisma = demo_db \<rparr>"
    by (simp add: step_defs demo_defs)
  show ?thesis
    unfolding blank_twice_def
    by (simp add: handle_def case_prod_beta one) (simp add: step_defs demo_defs)
qed

lemma bob_joined_eq:
  "bob_joined =
     \<lparr> boardConnections = [''b1'' \<mapsto> [0]], boardDocs = [''b1'' \<mapsto> 0],
       conns = [0 \<mapsto> \<lparr>socket = ''s3'', boardId = ''b1'', userId = Some ''bob'',
                 userName = Some ''Anonymous'', userEmail = None, color = Some ''#FFA07A'', cursor = None\<rparr>],
       nextConn = 1,
       docs = [0 \<mapsto> \<lparr>content = [7], observers = [''b1'']\<rparr>], nextDoc = 1,
       clientConnection = [''s3'' \<mapsto> 0],
       props = [''s3'' \<mapsto> \<lparr>sp_userRole = ''editor'', sp_boardId = ''b1'', sp_dbUserId = Some ''bob''\<rparr>],
       rooms = (\<lambda>_. {})(''b1'' := {''s3''}),
       prisma = demo_db \<rparr>"
  unfolding bob_joined_def
  by (simp add: step_defs demo_defs)


lemma bob_gone_eq:
  "bob_gone =
     \<lparr> boardConnections = [''b1'' \<mapsto> [0]], boardDocs = [''b1'' \<mapsto> 0],
       conns = [0 \<mapsto> \<lparr>socket = ''s3'', boardId = ''b1'', userId = Some ''bob'',
                 userName = Some ''Anonymous'', userEmail = None, color = Some ''#FFA07A'', cursor = None\<rparr>,
                1 \<mapsto> \<lparr>socket = ''s3'', boardId = ''b2'', userId = Some ''bob'',
                 userName = Some ''Anonymous'', userEmail = None, color = Some ''#FFA07A'', cursor = None\<rparr>],
       nextConn = 2,
       docs = [0 \<mapsto> \<lparr>content = [7, 9], observers = [''b1'']\<rparr>,
               1 \<mapsto> \<lparr>content = [], observers = [''b2'']\<rparr>], nextDoc = 2,
       clientConnection = Map.empty,
       props = [''s3'' \<mapsto> \<lparr>sp_userRole = ''owner'', sp_boardId = ''b2'', sp_dbUserId = Some ''bob''\<rparr>],
       rooms = (\<lambda>_. {}),
       prisma = demo_db \<rparr>"
proof -
  let ?edited = "\<lparr> boardConnections = [''b1'' \<mapsto> [0]], boardDocs = [''b1'' \<mapsto> 0],
       conns = [0 \<mapsto> \<lparr>socket = ''s3'', boardId = ''b1'', userId = Some ''bob'',
                 userName = Some ''Anonymous'', userEmail = None, color = Some ''#FFA07A'', cursor = None\<rparr>],
       nextConn = 1,
       docs = [0 \<mapsto> \<lparr>content = [7, 9], observers = [''b1'']\<rparr>], nextDoc = 1,
       clientConnection = [''s3'' \<mapsto> 0],
       props = [''s3'' \<mapsto> \<lparr>sp_userRole = ''editor'', sp_boardId = ''b1'', sp_dbUserId = Some ''bob''\<rparr>],
       rooms = (\<lambda>_. {})(''b1'' := {''s3''}),
       prisma = demo_db \<rparr> :: bytes state"
  let ?switched = "\<lparr> boardConnections = [''b1'' \<mapsto> [0], ''b2'' \<mapsto> [1]],
       boardDocs = [''b1'' \<mapsto> 0, ''b2'' \<mapsto> 1],
       conns = [0 \<mapsto> \<lparr>socket = ''s3'', boardId = ''b1'', userId = Some ''bob'',
                 userName = Some ''Anonymous'', userEmail = None, color = Some ''#FFA07A'', cursor = None\<rparr>,
                1 \<mapsto> \<lparr>socket = ''s3'', boardId = ''b2'', userId = Some ''bob'',
                 userName = Some ''Anonymous'', userEmail = None, color = Some ''#FFA07A'', cursor = None\<rparr>],
       nextConn = 2,
       docs = [0 \<mapsto> \<lparr>content = [7, 9], observers = [''b1'']\<rparr>,
               1 \<mapsto> \<lparr>content = [], observers = [''b2'']\<rparr>], nextDoc = 2,
       clientConnection = [''s3'' \<mapsto> 1],
       props = [''s3'' \<mapsto> \<lparr>sp_userRole = ''owner'', sp_boardId = ''b2'', sp_dbUserId = Some ''bob''\<rparr>],
       rooms = (\<lambda>_. {})(''b1'' := {''s3''}, ''b2'' := {''s3''}),
       prisma = demo_db \<rparr> :: bytes state"
  have j1: "fst (join_board gset_engine quiet ''s3'' (request ''b1'' (Some ''f-bob'') None) (init demo_db)) =
      bob_joined"
    by (simp add: bob_joined_def)
  have j2: "fst (board_update gset_engine write_fails ''s3'' (Some [1, 9]) bob_joined) = ?edited"
    unfolding bob_joined_eq
    by (simp add: board_update_def Y_applyUpdate_def board_update_row_def write_fails_def
          Uint8Array_def Array_from_def gset_engine_def decode_items_def encode_items_def Let_def)
  have j3: "fst (join_board gset_engine quiet ''s3'' (request ''b2'' (Some ''f-bob'') None) ?edited) = ?switched"
    by (simp add: step_defs demo_defs)
  have j4: "fst (socket_disconnect ''s3'' ?switched) =
     \<lparr> boardConnections = [''b1'' \<mapsto> [0]], boardDocs = [''b1'' \<mapsto> 0],
       conns = [0 \<mapsto> \<lparr>socket = ''s3'', boardId = ''b1'', userId = Some ''bob'',
                 userName = Some ''Anonymous'', userEmail = None, color = Some ''#FFA07A'', cursor = None\<rparr>,
                1 \<mapsto> \<lparr>socket = ''s3'', boardId = ''b2'', userId = Some ''bob'',
                 userName = Some ''Anonymous'', userEmail = None, color = Some ''#FFA07A'', cursor = None\<rparr>],
       nextConn = 2,
       docs = [0 \<mapsto> \<lparr>content = [7, 9], observers = [''b1'']\<rparr>,
               1 \<mapsto> \<lparr>content = [], observers = [''b2'']\<rparr>], nextDoc = 2,
       clientConnection = Map.empty,
       props = [''s3'' \<mapsto> \<lparr>sp_userRole = ''owner'', sp_boardId = ''b2'', sp_dbUserId = Some ''bob''\<rparr>],
       rooms = (\<lambda>_. {}),
       prisma = demo_db \<rparr>"
    unfolding socket_disconnect_def
    by (simp add: on_disconnect_def remove_connection_def Let_def) (rule ext, auto)
  have "bob_gone =
      fst (socket_disconnect ''s3''
        (fst (join_board gset_engine quiet ''s3'' (request ''b2'' (Some ''f-bob'') None)
          (fst (board_update gset_engine write_fails ''s3'' (Some [1, 9])
            (fst (join_board gset_engine quiet ''s3'' (request ''b1'' (Some ''f-bob'') None)
              (init demo_db))))))))"
    unfolding bob_gone_def switch_boards_def
    by (simp add: handle_def case_prod_beta)
  then show ?thesis
    by (simp only: j1 j2 j3 j4)
qed

section \<open>Release of a room and reload from the snapshot\<close>

lemma load_or_create_boardDocs_other:
  "b' \<noteq> b \<Longrightarrow> boardDocs (fst (snd (load_or_create eng e b s))) b' = boardDocs s b'"
  by (cases "boardDocs s b") (simp_all add: load_or_create_existing load_or_create_fresh)

lemma join_board_boardDocs_other:
  assumes "data_boardId data \<noteq> b"
  shows "boardDocs (fst (join_board eng e k data s)) b = boardDocs s b"
proof (cases "data_boardId data = []")
  case True
  then show ?thesis by (simp add: join_board_no_board)
next
  case False
  obtain h userRole dbUserId l where
    v: "verify_access e (prisma s) (data_boardId data) (data_userId data) = (h, userRole, dbUserId, l)"
    by (cases "verify_access e (prisma s) (data_boardId data) (data_userId data)") auto
  show ?thesis
  proof (cases h)
    case False
    then show ?thesis using v by (simp add: join_board_denied)
  next
    case True
    show ?thesis
      using v True assms
      by (simp add: join_board_admitted [OF False] admit_fields load_or_create_boardDocs_other)
  qed
qed

lemma remove_connection_keeps_released:
  "boardDocs t b = None \<Longrightarrow> boardDocs (remove_connection b' r t) b = None"
  using remove_connection_boardDocs [of b' r t b] by auto

lemma handle_keeps_released:
  assumes "boardDocs s b = None" "\<not> joins_board b ev"
  shows "boardDocs (fst (handle eng e ev s)) b = None"
proof (cases ev)
  case (Join_board k d)
  then show ?thesis
    using assms by (simp add: handle_def joins_board_def join_board_boardDocs_other)
next
  case (Sync_state k d)
  then show ?thesis
    using assms
    by (auto simp: handle_def sync_state_def split: option.splits dest!: Y_applyUpdate_frame)
next
  case (Board_update k d)
  then show ?thesis
    using assms
    by (auto simp: handle_def board_update_def split: option.splits dest!: Y_applyUpdate_frame)
next
  case (Cursor_move k d)
  then show ?thesis
    using assms by (auto simp: handle_def cursor_move_def split: option.splits if_splits)
next
  case (Awareness_update k d)
  then show ?thesis
    using assms by (auto simp: handle_def awareness_update_def split: option.splits)
next
  case (Disconnect k)
  show ?thesis
    using assms Disconnect
    by (auto simp: handle_def socket_disconnect_def on_disconnect_def Let_def
          remove_connection_keeps_released split: option.splits)
qed

lemma run_keeps_released:
  "boardDocs s b = None \<Longrightarrow> list_all (\<lambda>x. \<not> joins_board b (snd x)) evs \<Longrightarrow>
     boardDocs (fst (run eng evs s)) b = None"
proof (induction evs arbitrary: s)
  case Nil
  then show ?case by simp
next
  case (Cons x evs)
  obtain e ev where x: "x = (e, ev)" by (cases x)
  have "boardDocs (fst (handle eng e ev s)) b = None"
    using Cons.prems x by (simp add: handle_keeps_released)
  then show ?case
    using Cons.IH [of "fst (handle eng e ev s)"] Cons.prems
    by (simp add: x case_prod_beta)
qed

lemma join_board_fresh_handle:
  assumes "data_boardId data = b" "b \<noteq> []"
    and "fst (verify_access e (prisma t) b (data_userId data))"
    and "boardDocs t b = None"
  shows "boardDocs (fst (join_board eng e k data t)) b = Some (nextDoc t)"
    and "docs (fst (join_board eng e k data t)) (nextDoc t) =
           Some \<lparr>content = restored eng (snapshot_of e (prisma t) b), observers = [b]\<rparr>"
    and "Emit (ToSocket k) (SyncBoard (Array_from (encodeStateAsUpdate eng
           (restored eng (snapshot_of e (prisma t) b))))) \<in> set (snd (join_board eng e k data t))"
proof -
  obtain userRole dbUserId l where
    v: "verify_access e (prisma t) (data_boardId data) (data_userId data) = (True, userRole, dbUserId, l)"
    using assms(1,3)
    by (cases "verify_access e (prisma t) (data_boardId data) (data_userId data)") auto
  have nb: "data_boardId data \<noteq> []" using assms by simp
  have n: "boardDocs (socket_join k b t) b = None" using assms by simp
  note j = join_board_admitted [OF nb v, of eng k, unfolded assms(1)]
  note f = load_or_create_fresh [OF n, of eng e]
  show "boardDocs (fst (join_board eng e k data t)) b = Some (nextDoc t)"
    by (simp add: j admit_fields f)
  show "docs (fst (join_board eng e k data t)) (nextDoc t) =
           Some \<lparr>content = restored eng (snapshot_of e (prisma t) b), observers = [b]\<rparr>"
    by (simp add: j admit_fields f)
  show "Emit (ToSocket k) (SyncBoard (Array_from (encodeStateAsUpdate eng
           (restored eng (snapshot_of e (prisma t) b))))) \<in> set (snd (join_board eng e k data t))"
    by (simp add: j f admit_def Let_def)
qed


lemma load_or_create_nextDoc: "nextDoc s \<le> nextDoc (fst (snd (load_or_create eng e b s)))"
  by (cases "boardDocs s b") (simp_all add: load_or_create_existing load_or_create_fresh)

lemma join_board_nextDoc: "nextDoc s \<le> nextDoc (fst (join_board eng e k data s))"
proof (cases "data_boardId data = []")
  case True
  then show ?thesis by (simp add: join_board_no_board)
next
  case False
  obtain h userRole dbUserId l where
    v: "verify_access e (prisma s) (data_boardId data) (data_userId data) = (h, userRole, dbUserId, l)"
    by (cases "verify_access e (prisma s) (data_boardId data) (data_userId data)") auto
  show ?thesis
  proof (cases h)
    case False
    then show ?thesis using v by (simp add: join_board_denied)
  next
    case True
    show ?thesis
      using v True
        load_or_create_nextDoc [of "socket_join k (data_boardId data) s" eng e "data_boardId data"]
      by (simp add: join_board_admitted [OF False] admit_fields)
  qed
qed

lemma handle_nextDoc: "nextDoc s \<le> nextDoc (fst (handle eng e ev s))"
proof (cases ev)
  case (Join_board k d)
  then show ?thesis by (simp add: handle_def join_board_nextDoc)
next
  case (Sync_state k d)
  then show ?thesis
    by (auto simp: handle_def sync_state_def split: option.splits dest!: Y_applyUpdate_frame)
next
  case (Board_update k d)
  then show ?thesis
    by (auto simp: handle_def board_update_def split: option.splits dest!: Y_applyUpdate_frame)
next
  case (Cursor_move k d)
  then show ?thesis by (auto simp: handle_def cursor_move_def split: option.splits if_splits)
next
  case (Awareness_update k d)
  then show ?thesis by (auto simp: handle_def awareness_update_def split: option.splits)
next
  case (Disconnect k)
  then show ?thesis
    by (auto simp: handle_def socket_disconnect_def on_disconnect_def Let_def
          remove_connection_fields split: option.splits)
qed

lemma run_nextDoc: "nextDoc s \<le> nextDoc (fst (run eng evs s))"
proof (induction evs arbitrary: s)
  case Nil
  then show ?case by simp
next
  case (Cons x evs)
  obtain e ev where x: "x = (e, ev)" by (cases x)
  show ?case
    using Cons.IH [of "fst (handle eng e ev s)"] handle_nextDoc [of s eng e ev]
    by (simp add: x case_prod_beta)
qed

text \<open>
  The release as the code performs it. When a socket disconnects whose current connection is
  the only entry of its room's set, the set and the document handle are removed from the
  tables. Whatever other
  events follow, as long as none is a join for that board, the next admitted join for the
  board finds no handle, allocates a new document object (one that did not exist before, so
  not the released one) and its content is the persisted snapshot merged into an empty
  document, or the empty document when there is no usable snapshot; that content is what the
  joiner is sent.
\<close>

lemma sole_connection_release:
  assumes "wf s"
    and "clientConnection s k = Some r" and "conns s r = Some conn"
    and "boardConnections s (boardId conn) = Some [r]"
    and "boardDocs s (boardId conn) = Some y0"
    and "list_all (\<lambda>x. \<not> joins_board (boardId conn) (snd x)) evs"
    and "t = fst (run eng evs (fst (socket_disconnect k s)))"
    and "data_boardId data = boardId conn" and "boardId conn \<noteq> []"
    and "fst (verify_access e (prisma t) (boardId conn) (data_userId data))"
  shows "boardConnections (fst (socket_disconnect k s)) (boardId conn) = None \<and>
         boardDocs (fst (socket_disconnect k s)) (boardId conn) = None \<and>
         boardDocs t (boardId conn) = None \<and>
         docs t (nextDoc t) = None \<and> nextDoc t \<noteq> y0 \<and>
         boardDocs (fst (join_board eng e k' data t)) (boardId conn) = Some (nextDoc t) \<and>
         docs (fst (join_board eng e k' data t)) (nextDoc t) =
           Some \<lparr>content = restored eng (snapshot_of e (prisma t) (boardId conn)),
                 observers = [boardId conn]\<rparr> \<and>
         Emit (ToSocket k') (SyncBoard (Array_from (encodeStateAsUpdate eng
           (restored eng (snapshot_of e (prisma t) (boardId conn)))))) \<in>
           set (snd (join_board eng e k' data t))"
proof -
  let ?b = "boardId conn"
  let ?d = "fst (socket_disconnect k s)"
  have d: "boardConnections ?d ?b = None" "boardDocs ?d ?b = None" "nextDoc ?d = nextDoc s"
    using assms(2,3,4)
    by (simp_all add: socket_disconnect_def on_disconnect_def Let_def remove_connection_def)
  have rel: "boardDocs t ?b = None"
    unfolding assms(7) by (rule run_keeps_released [OF d(2) assms(6)])
  have wt: "wf t"
    unfolding assms(7) by (intro wf_run wf_socket_disconnect assms(1))
  have fresh: "docs t (nextDoc t) = None"
    using wf_docs [OF wt, of "nextDoc t"] by simp
  have mono: "nextDoc s \<le> nextDoc t"
    unfolding assms(7) using run_nextDoc [of ?d eng evs] by (simp add: d(3))
  have "y0 < nextDoc s" using wf_boardDocs [OF assms(1,5)] .
  then have ne: "nextDoc t \<noteq> y0" using mono by simp
  note j = join_board_fresh_handle [OF assms(8,9,10) rel, where eng = eng and k = k']
  show ?thesis
    using d rel fresh ne j by simp
qed


lemma wf_ann_joined: "wf ann_joined"
  unfolding ann_joined_def by (intro wf_join_board wf_init)

lemma sole_connection_release_example:
  "wf ann_joined \<and>
   clientConnection ann_joined ''s1'' = Some 0 \<and>
   boardConnections ann_joined ''b1'' = Some [0] \<and>
   boardDocs ann_joined ''b1'' = Some 0 \<and>
   list_all (\<lambda>x. \<not> joins_board ''b1'' (snd x)) meanwhile \<and>
   fst (verify_access quiet (prisma released) ''b1'' None) \<and>
   boardConnections (fst (socket_disconnect ''s1'' ann_joined)) ''b1'' = None \<and>
   boardDocs (fst (socket_disconnect ''s1'' ann_joined)) ''b1'' = None \<and>
   boardDocs released ''b1'' = None \<and>
   nextDoc released = 2 \<and>
   docs released 2 = None \<and>
   boardDocs (fst (join_board gset_engine quiet ''s2'' (request ''b1'' None None) released)) ''b1'' = Some 2 \<and>
   docs (fst (join_board gset_engine quiet ''s2'' (request ''b1'' None None) released)) 2 =
     Some \<lparr>content = [7], observers = [''b1'']\<rparr> \<and>
   Emit (ToSocket ''s2'') (SyncBoard [1, 7]) \<in>
     set (snd (join_board gset_engine quiet ''s2'' (request ''b1'' None None) released))"
proof -
  let ?c = "\<lparr>socket = ''s1'', boardId = ''b1'', userId = Some ''ann'', userName = Some ''Anonymous'',
     userEmail = None, color = Some ''#FFA07A'', cursor = None\<rparr>"
  have b: "boardId ?c = ''b1''" by simp
  have h1: "wf ann_joined" by (rule wf_ann_joined)
  have h2: "clientConnection ann_joined ''s1'' = Some 0" by code_simp
  have h3: "conns ann_joined 0 = Some ?c" by code_simp
  have h4: "boardConnections ann_joined (boardId ?c) = Some [0]" by code_simp
  have h5: "boardDocs ann_joined (boardId ?c) = Some 0" by code_simp
  have h6: "list_all (\<lambda>x. \<not> joins_board (boardId ?c) (snd x)) meanwhile" by code_simp
  have h7: "released = fst (run gset_engine meanwhile (fst (socket_disconnect ''s1'' ann_joined)))"
    by (simp add: released_def)
  have h8: "data_boardId (request ''b1'' None None) = boardId ?c" by (simp add: request_def)
  have h9: "boardId ?c \<noteq> []" by simp
  have h10: "fst (verify_access quiet (prisma released) (boardId ?c) (data_userId (request ''b1'' None None)))"
    by code_simp
  have n: "nextDoc released = 2" by code_simp
  have r: "restored gset_engine (snapshot_of quiet (prisma released) ''b1'') = [7]" by code_simp
  have a: "Array_from (encodeStateAsUpdate gset_engine [7]) = [1, 7]" by code_simp
  have u: "data_userId (request ''b1'' None None) = None" by (simp add: request_def)
  note th = sole_connection_release [OF h1 h2 h3 h4 h5 h6 h7 h8 h9 h10,
      where k' = "''s2''", unfolded b n r a]
  show ?thesis
    using h1 h2 h4 h5 h6 h10 th n unfolding b u by simp
qed

text \<open>
  C8 (the code departs from the claim). Every admitted join overwrites the socket's closure
  variable (line 161) and leaves the object of the socket's earlier join in the set of its
  room; the disconnect handler deletes the current object only (lines 324--331). Bob is the
  only one on board \<open>b1\<close>, opens board \<open>b2\<close> on the same socket and disconnects. Now no
  socket is connected and none keeps a connection. Board \<open>b2\<close> has been released, but the
  room of \<open>b1\<close> still holds Bob's connection and its handle, with the item \<open>9\<close> that
  never reached the database. The next joiner of \<open>b1\<close> is sent that document, not the
  snapshot \<open>{7}\<close>, and a roster that lists Bob; no new handle is built.
\<close>

theorem stale_connection_keeps_room:
  "(\<forall>k. clientConnection bob_gone k = None) \<and> (\<forall>b. rooms bob_gone b = {}) \<and>
   boardConnections bob_gone ''b2'' = None \<and> boardDocs bob_gone ''b2'' = None \<and>
   boardConnections bob_gone ''b1'' = Some [0] \<and> boardDocs bob_gone ''b1'' = Some 0 \<and>
   docs bob_gone 0 = Some \<lparr>content = [7, 9], observers = [''b1'']\<rparr> \<and>
   restored gset_engine (snapshot_of quiet (prisma bob_gone) ''b1'') = [7] \<and>
   snd (join_board gset_engine quiet ''s4'' (request ''b1'' None None) bob_gone) =
     [Emit (ToSocket ''s4'') (SyncBoard [2, 7, 9]),
      Emit (ToSocket ''s4'') (ActiveUsers
        [\<lparr>ui_userId = Some ''bob'', ui_userName = Some ''Anonymous'', ui_userEmail = None,
          ui_color = Some ''#FFA07A'', ui_cursor = None, ui_socketId = ''s3'', ui_role = ''owner''\<rparr>,
         \<lparr>ui_userId = None, ui_userName = Some ''Anonymous'', ui_userEmail = None,
          ui_color = Some ''#FFA07A'', ui_cursor = None, ui_socketId = ''s4'', ui_role = ''viewer''\<rparr>]),
      Emit (ToRoomExcept ''s4'' ''b1'')
        (UserJoined None (Some ''Anonymous'') None (Some ''#FFA07A'') ''s4'' ''viewer''),
      Emit (ToSocket ''s4'') (UserRole ''viewer'')] \<and>
   boardDocs (fst (join_board gset_engine quiet ''s4'' (request ''b1'' None None) bob_gone)) ''b1'' = Some 0 \<and>
   nextDoc (fst (join_board gset_engine quiet ''s4'' (request ''b1'' None None) bob_gone)) = nextDoc bob_gone"
proof -
  have r: "restored gset_engine (snapshot_of quiet (prisma bob_gone) ''b1'') = [7]"
    unfolding bob_gone_eq
    by (simp add: restored_def snapshot_of_def demo_defs Let_def)
  have j: "snd (join_board gset_engine quiet ''s4'' (request ''b1'' None None) bob_gone) =
     [Emit (ToSocket ''s4'') (SyncBoard [2, 7, 9]),
      Emit (ToSocket ''s4'') (ActiveUsers
        [\<lparr>ui_userId = Some ''bob'', ui_userName = Some ''Anonymous'', ui_userEmail = None,
          ui_color = Some ''#FFA07A'', ui_cursor = None, ui_socketId = ''s3'', ui_role = ''owner''\<rparr>,
         \<lparr>ui_userId = None, ui_userName = Some ''Anonymous'', ui_userEmail = None,
          ui_color = Some ''#FFA07A'', ui_cursor = None, ui_socketId = ''s4'', ui_role = ''viewer''\<rparr>]),
      Emit (ToRoomExcept ''s4'' ''b1'')
        (UserJoined None (Some ''Anonymous'') None (Some ''#FFA07A'') ''s4'' ''viewer''),
      Emit (ToSocket ''s4'') (UserRole ''viewer'')]"
    unfolding bob_gone_eq
    by (simp add: step_defs demo_defs)
  have k: "boardDocs (fst (join_board gset_engine quiet ''s4'' (request ''b1'' None None) bob_gone)) ''b1'' = Some 0"
    "nextDoc (fst (join_board gset_engine quiet ''s4'' (request ''b1'' None None) bob_gone)) = 2"
    unfolding bob_gone_eq
    by (simp_all add: step_defs demo_defs)
  show ?thesis
    using r j k by (simp add: bob_gone_eq)
qed

section \<open>Updates, persistence and cursors\<close>

lemma ann_joined_fields:
  "clientConnection ann_joined ''s1'' = Some 0"
  "conns ann_joined 0 = Some \<lparr>socket = ''s1'', boardId = ''b1'', userId = Some ''ann'',
     userName = Some ''Anonymous'', userEmail = None, color = Some ''#FFA07A'', cursor = None\<rparr>"
  "boardConnections ann_joined ''b1'' = Some [0]"
  "boardDocs ann_joined ''b1'' = Some 0"
  "docs ann_joined 0 = Some \<lparr>content = [7], observers = [''b1'']\<rparr>"
  by code_simp+

text \<open>
  For every engine: after a \<open>board-update\<close> that the engine accepts, the row of the board
  holds the payload of the event the engine fired, and the clock value.
\<close>

lemma board_update_persists_event:
  assumes "clientConnection s k = Some r" "conns s r = Some conn"
    and "boardDocs s (boardId conn) = Some y" "docs s y = Some d"
    and "observers d = [boardId conn]"
    and "applyUpdate eng (content d) (Uint8Array ns) = Some (c, Some u)"
    and "\<not> fails e BoardUpdateWrite" "boards (prisma s) (boardId conn) = Some row"
  shows "boards (prisma (fst (board_update eng e k (Some ns) s))) (boardId conn) =
           Some (row\<lparr>yDocState := Some u, lastModified := now e\<rparr>)"
    and "docs (fst (board_update eng e k (Some ns) s)) y = Some (d\<lparr>content := c\<rparr>)"
  using assms
  by (simp_all add: board_update_def Y_applyUpdate_def board_update_row_def)

text \<open>
  C1 (the code departs from the claim). The listener registered at line 144 writes the bytes
  of the \<open>update\<close> event, not the encoding of the whole document. With the snapshot
  \<open>{7}\<close> loaded and the update \<open>{9}\<close> applied, the document encodes as \<open>[2, 7, 9]\<close>
  but the row holds \<open>[1, 9]\<close>; the same happens when the whole state arrives by
  \<open>sync-state\<close>; and a document restored from that row holds \<open>9\<close> alone.
\<close>

theorem update_persists_increment_only:
  "map_option yDocState
     (boards (prisma (fst (board_update gset_engine quiet ''s1'' (Some [1, 9]) ann_joined))) ''b1'') =
     Some (Some [1, 9]) \<and>
   map_option (\<lambda>d. encodeStateAsUpdate gset_engine (content d))
     (docs (fst (board_update gset_engine quiet ''s1'' (Some [1, 9]) ann_joined)) 0) =
     Some [2, 7, 9] \<and>
   map_option yDocState
     (boards (prisma (fst (sync_state gset_engine quiet ''s1'' (Some [2, 7, 9]) ann_joined))) ''b1'') =
     Some (Some [1, 9]) \<and>
   restored gset_engine (Some [1, 9]) = [9]"
  by code_simp

lemma board_update_rejected:
  assumes "clientConnection s k = Some r" "conns s r = Some conn"
    and "boardDocs s (boardId conn) = Some y" "docs s y = Some d"
    and "applyUpdate eng (content d) (Uint8Array ns) = None"
  shows "board_update eng e k (Some ns) s = (s, [Uncaught])"
    and "sync_state eng e k (Some ns) s = (s, [Uncaught])"
  using assms by (simp_all add: board_update_def sync_state_def Y_applyUpdate_def)

text \<open>
  C6 (the code departs from the claim). \<^verbatim>\<open>Y.applyUpdate\<close> is called outside any
  \<^verbatim>\<open>try\<close> in \<open>board-update\<close> and \<open>sync-state\<close>: when the engine refuses the bytes
  the exception leaves the handler. Nothing is logged and nothing is broadcast; the tables
  are as before.
\<close>

theorem rejected_update_escapes_handler:
  "board_update gset_engine quiet ''s1'' (Some [5]) ann_joined = (ann_joined, [Uncaught]) \<and>
   sync_state gset_engine quiet ''s1'' (Some [5]) ann_joined = (ann_joined, [Uncaught])"
proof -
  have "applyUpdate gset_engine [7] (Uint8Array [5]) = None"
    by code_simp
  then show ?thesis
    using board_update_rejected [OF ann_joined_fields(1,2), of 0 _ gset_engine "[5]" quiet]
    by (simp add: ann_joined_fields)
qed






section \<open>What an admitted join does to its room\<close>

lemma load_or_create_keeps:
  "boardConnections (fst (snd (load_or_create eng e b s))) = boardConnections s"
  "conns (fst (snd (load_or_create eng e b s))) = conns s"
  "nextConn (fst (snd (load_or_create eng e b s))) = nextConn s"
  "clientConnection (fst (snd (load_or_create eng e b s))) = clientConnection s"
  "props (fst (snd (load_or_create eng e b s))) = props s"
  "rooms (fst (snd (load_or_create eng e b s))) = rooms s"
  by (cases "boardDocs s b"; simp add: load_or_create_existing load_or_create_fresh)+

lemma connections_of_cong:
  "boardConnections s1 = boardConnections s2 \<Longrightarrow> connections_of s1 = connections_of s2"
  by (rule ext) (simp add: connections_of_def)

lemma is_same_user_cong:
  "conns s1 = conns s2 \<Longrightarrow> is_same_user s1 = is_same_user s2"
  by (intro ext) (simp add: is_same_user_def)

lemma left_notice_cong:
  "conns s1 = conns s2 \<Longrightarrow> left_notice s1 = left_notice s2"
  by (intro ext) (simp add: left_notice_def)

lemma is_same_user_alloc:
  "x \<noteq> n \<Longrightarrow> is_same_user (s\<lparr>conns := (conns s)(n \<mapsto> c)\<rparr>) d m x = is_same_user s d m x"
  by (simp add: is_same_user_def)

lemma filter_cong_set: "(\<And>x. x \<in> set xs \<Longrightarrow> P x = Q x) \<Longrightarrow> filter P xs = filter Q xs"
  by (induction xs) auto

lemma admit_room:
  assumes "wf s"
  shows "connections_of (fst (admit eng e k data userRole dbUserId y s)) (data_boardId data) =
           filter (\<lambda>x. \<not> is_same_user s dbUserId (data_userEmail data) x)
             (connections_of s (data_boardId data)) @ [nextConn s]"
proof -
  have old: "\<And>x. x \<in> set (connections_of s (data_boardId data)) \<Longrightarrow> x \<noteq> nextConn s"
    using wf_connections_of(2) [OF assms] by blast
  have "filter (\<lambda>x. \<not> is_same_user (s\<lparr>conns := (conns s)(nextConn s \<mapsto> new_connection e k data dbUserId)\<rparr>)
                       dbUserId (data_userEmail data) x) (connections_of s (data_boardId data)) =
        filter (\<lambda>x. \<not> is_same_user s dbUserId (data_userEmail data) x) (connections_of s (data_boardId data))"
    by (rule filter_cong_set) (simp add: is_same_user_alloc old)
  then show ?thesis
    by (simp add: connections_of_def [of "fst (admit eng e k data userRole dbUserId y s)"] admit_fields)
qed

lemma admit_room_other:
  "b' \<noteq> data_boardId data \<Longrightarrow>
     connections_of (fst (admit eng e k data userRole dbUserId y s)) b' = connections_of s b'"
  by (simp add: connections_of_def admit_fields)

lemma admit_out:
  assumes "wf s"
  shows "snd (admit eng e k data userRole dbUserId y s) =
     concat (map (left_notice s (data_boardId data))
        (filter (is_same_user s dbUserId (data_userEmail data)) (connections_of s (data_boardId data)))) @
     [Emit (ToSocket k) (SyncBoard (Array_from
         (case docs s y of None \<Rightarrow> [] | Some d \<Rightarrow> encodeStateAsUpdate eng (content d)))),
      Emit (ToSocket k) (ActiveUsers (active_users (fst (admit eng e k data userRole dbUserId y s)) (data_boardId data))),
      Emit (ToRoomExcept k (data_boardId data))
        (UserJoined (userId (new_connection e k data dbUserId)) (userName (new_connection e k data dbUserId))
           (data_userEmail data) (color (new_connection e k data dbUserId)) k userRole),
      Emit (ToSocket k) (UserRole userRole)]"
proof -
  let ?n = "new_connection e k data dbUserId"
  let ?b = "data_boardId data"
  let ?s1 = "s\<lparr>conns := (conns s)(nextConn s \<mapsto> ?n), nextConn := Suc (nextConn s),
                clientConnection := (clientConnection s)(k \<mapsto> nextConn s),
                props := (props s)(k \<mapsto> \<lparr>sp_userRole = userRole, sp_boardId = ?b, sp_dbUserId = dbUserId\<rparr>)\<rparr>"
  have old: "\<And>x. x \<in> set (connections_of s ?b) \<Longrightarrow> x \<noteq> nextConn s"
    using wf_connections_of(2) [OF assms] by blast
  have c1: "connections_of ?s1 ?b = connections_of s ?b"
    by (simp add: connections_of_def)
  have f: "filter (is_same_user ?s1 dbUserId (data_userEmail data)) (connections_of s ?b) =
           filter (is_same_user s dbUserId (data_userEmail data)) (connections_of s ?b)"
    by (rule filter_cong_set) (simp add: is_same_user_def old)
  have m: "map (left_notice ?s1 ?b) (filter (is_same_user s dbUserId (data_userEmail data)) (connections_of s ?b)) =
           map (left_notice s ?b) (filter (is_same_user s dbUserId (data_userEmail data)) (connections_of s ?b))"
    by (rule map_cong) (simp_all add: left_notice_def old)
  have "snd (admit eng e k data userRole dbUserId y s) =
     concat (map (left_notice ?s1 ?b)
        (filter (is_same_user ?s1 dbUserId (data_userEmail data)) (connections_of ?s1 ?b))) @
     [Emit (ToSocket k) (SyncBoard (Array_from
         (case docs s y of None \<Rightarrow> [] | Some d \<Rightarrow> encodeStateAsUpdate eng (content d)))),
      Emit (ToSocket k) (ActiveUsers (active_users (fst (admit eng e k data userRole dbUserId y s)) ?b)),
      Emit (ToRoomExcept k ?b)
        (UserJoined (userId ?n) (userName ?n) (data_userEmail data) (color ?n) k userRole),
      Emit (ToSocket k) (UserRole userRole)]"
    by (simp add: admit_def Let_def)
  then show ?thesis
    by (simp only: c1 f m)
qed


lemma verify_access_log: "list_all is_log (snd (snd (snd (verify_access e db b u))))"
  by (auto simp: verify_access_def anonymous_access_def member_access_def is_log_def
        split: option.splits prod.splits)

lemma load_persisted_new_log:
  assumes "docs s y = Some \<lparr>content = new_Doc eng, observers = []\<rparr>"
  shows "list_all is_log (snd (load_persisted eng e b y s))"
  using assms
  by (auto simp: load_persisted_def Y_applyUpdate_def is_log_def Let_def
        split: option.splits prod.splits)

lemma load_or_create_log: "list_all is_log (snd (snd (load_or_create eng e b s)))"
proof (cases "boardDocs s b")
  case (Some y)
  then show ?thesis by (simp add: load_or_create_existing)
next
  case None
  have "list_all is_log (snd (load_persisted eng e b (nextDoc s)
      (s\<lparr>docs := (docs s)(nextDoc s \<mapsto> \<lparr>content = new_Doc eng, observers = []\<rparr>),
         nextDoc := Suc (nextDoc s)\<rparr>)))"
    by (rule load_persisted_new_log) simp
  then show ?thesis
    using None by (simp add: load_or_create_def alloc_doc_def split: prod.splits)
qed

text \<open>The room and the output of an admitted join, in terms of the state before it.\<close>

lemma join_board_admits:
  assumes w: "wf s"
    and b: "data_boardId data = b" "b \<noteq> []"
    and v: "verify_access e (prisma s) b (data_userId data) = (True, userRole, dbUserId, l)"
  shows "connections_of (fst (join_board eng e k data s)) b =
           filter (\<lambda>x. \<not> is_same_user s dbUserId (data_userEmail data) x) (connections_of s b) @ [nextConn s]"
    and "b' \<noteq> b \<Longrightarrow> connections_of (fst (join_board eng e k data s)) b' = connections_of s b'"
    and "conns (fst (join_board eng e k data s)) = (conns s)(nextConn s \<mapsto> new_connection e k data dbUserId)"
    and "nextConn (fst (join_board eng e k data s)) = Suc (nextConn s)"
    and "clientConnection (fst (join_board eng e k data s)) = (clientConnection s)(k \<mapsto> nextConn s)"
    and "rooms (fst (join_board eng e k data s)) = (rooms s)(b := insert k (rooms s b))"
    and "\<exists>pre st. list_all is_log pre \<and> snd (join_board eng e k data s) =
           pre @ concat (map (left_notice s b)
                    (filter (is_same_user s dbUserId (data_userEmail data)) (connections_of s b))) @
           [Emit (ToSocket k) (SyncBoard st),
            Emit (ToSocket k) (ActiveUsers (active_users (fst (join_board eng e k data s)) b)),
            Emit (ToRoomExcept k b)
              (UserJoined (userId (new_connection e k data dbUserId)) (userName (new_connection e k data dbUserId))
                 (data_userEmail data) (color (new_connection e k data dbUserId)) k userRole),
            Emit (ToSocket k) (UserRole userRole)]"
proof -
  let ?lc = "load_or_create eng e b (socket_join k b s)"
  let ?s0 = "fst (snd ?lc)"
  have nb: "data_boardId data \<noteq> []" using b by simp
  note j = join_board_admitted [OF nb v [folded b(1)], of eng k, unfolded b(1)]
  have w0: "wf ?s0" by (intro wf_load_or_create wf_socket_join w)
  have c0: "connections_of ?s0 = connections_of s"
    by (rule connections_of_cong) (simp add: load_or_create_keeps)
  have u0: "is_same_user ?s0 = is_same_user s"
    by (rule is_same_user_cong) (simp add: load_or_create_keeps)
  have n0: "left_notice ?s0 = left_notice s"
    by (rule left_notice_cong) (simp add: load_or_create_keeps)
  have k0: "nextConn ?s0 = nextConn s" "conns ?s0 = conns s"
    "clientConnection ?s0 = clientConnection s" "rooms ?s0 = (rooms s)(b := insert k (rooms s b))"
    by (simp_all add: load_or_create_keeps)
  have s': "fst (join_board eng e k data s) = fst (admit eng e k data userRole dbUserId (fst ?lc) ?s0)"
    and o': "snd (join_board eng e k data s) =
       (l @ snd (snd ?lc)) @ snd (admit eng e k data userRole dbUserId (fst ?lc) ?s0)"
    by (simp_all add: j)
  show "connections_of (fst (join_board eng e k data s)) b =
           filter (\<lambda>x. \<not> is_same_user s dbUserId (data_userEmail data) x) (connections_of s b) @ [nextConn s]"
    unfolding s' using admit_room [OF w0, of eng e k data userRole dbUserId "fst ?lc"]
    by (simp only: b(1) c0 u0 k0)
  show "b' \<noteq> b \<Longrightarrow> connections_of (fst (join_board eng e k data s)) b' = connections_of s b'"
    unfolding s' using admit_room_other [of b' data eng e k userRole dbUserId "fst ?lc" ?s0]
    by (simp add: b(1) c0)
  show "conns (fst (join_board eng e k data s)) = (conns s)(nextConn s \<mapsto> new_connection e k data dbUserId)"
    unfolding s' by (simp only: admit_fields k0)
  show "nextConn (fst (join_board eng e k data s)) = Suc (nextConn s)"
    unfolding s' by (simp only: admit_fields k0)
  show "clientConnection (fst (join_board eng e k data s)) = (clientConnection s)(k \<mapsto> nextConn s)"
    unfolding s' by (simp only: admit_fields k0)
  show "rooms (fst (join_board eng e k data s)) = (rooms s)(b := insert k (rooms s b))"
    unfolding s' by (simp only: admit_fields k0)
  show "\<exists>pre st. list_all is_log pre \<and> snd (join_board eng e k data s) =
           pre @ concat (map (left_notice s b)
                    (filter (is_same_user s dbUserId (data_userEmail data)) (connections_of s b))) @
           [Emit (ToSocket k) (SyncBoard st),
            Emit (ToSocket k) (ActiveUsers (active_users (fst (join_board eng e k data s)) b)),
            Emit (ToRoomExcept k b)
              (UserJoined (userId (new_connection e k data dbUserId)) (userName (new_connection e k data dbUserId))
                 (data_userEmail data) (color (new_connection e k data dbUserId)) k userRole),
            Emit (ToSocket k) (UserRole userRole)]"
  proof -
    have "list_all is_log l"
      using verify_access_log [of e "prisma s" b "data_userId data"] v by simp
    then have lg: "list_all is_log (l @ snd (snd ?lc))"
      by (simp add: load_or_create_log)
    show ?thesis
      unfolding o' s'
      using lg admit_out [OF w0, of eng e k data userRole dbUserId "fst ?lc"]
      by (simp only: b(1) c0 u0 n0) blast
  qed
qed

text \<open>
  An existing connection that passes the test of lines 183--184 is taken out of the room,
  and its \<open>user-left\<close> notice precedes everything the join sends about the new connection.
\<close>

lemma replaced_connection:
  assumes w: "wf s"
    and a: "rA \<in> set (connections_of s b)" "conns s rA = Some cA"
    and b: "data_boardId data = b" "b \<noteq> []"
    and v: "verify_access e (prisma s) b (data_userId data) = (True, userRole, dbUserId, l)"
    and u: "same_user dbUserId (data_userEmail data) cA"
  shows "rA \<notin> set (connections_of (fst (join_board eng e k data s)) b)"
    and "\<exists>xs ys st. snd (join_board eng e k data s) =
           xs @ Emit (ToRoomExcept (socket cA) b)
                  (UserLeft (userId cA) (userName cA) (userEmail cA) (socket cA)) #
           ys @ [Emit (ToSocket k) (SyncBoard st),
                 Emit (ToSocket k) (ActiveUsers (active_users (fst (join_board eng e k data s)) b)),
                 Emit (ToRoomExcept k b)
                   (UserJoined (or_else dbUserId (data_userId data))
                      (or_else (data_userName data) (Some ''Anonymous''))
                      (data_userEmail data) (getRandomColor (random_index e)) k userRole),
                 Emit (ToSocket k) (UserRole userRole)]"
proof -
  note J = join_board_admits [OF w b v, where eng = eng and k = k]
  have lt: "rA < nextConn s" by (rule wf_connections_of(2) [OF w a(1)])
  have su: "is_same_user s dbUserId (data_userEmail data) rA"
    using a(2) u by (simp add: is_same_user_def)
  show "rA \<notin> set (connections_of (fst (join_board eng e k data s)) b)"
    using su lt by (simp add: J(1))
  obtain pre st where out: "snd (join_board eng e k data s) =
      pre @ concat (map (left_notice s b)
                    (filter (is_same_user s dbUserId (data_userEmail data)) (connections_of s b))) @
           [Emit (ToSocket k) (SyncBoard st),
            Emit (ToSocket k) (ActiveUsers (active_users (fst (join_board eng e k data s)) b)),
            Emit (ToRoomExcept k b)
              (UserJoined (userId (new_connection e k data dbUserId)) (userName (new_connection e k data dbUserId))
                 (data_userEmail data) (color (new_connection e k data dbUserId)) k userRole),
            Emit (ToSocket k) (UserRole userRole)]"
    using J(7) by blast
  have "rA \<in> set (filter (is_same_user s dbUserId (data_userEmail data)) (connections_of s b))"
    using a(1) su by simp
  then obtain as bs where sp:
    "filter (is_same_user s dbUserId (data_userEmail data)) (connections_of s b) = as @ rA # bs"
    by (meson split_list)
  have ln: "left_notice s b rA =
      [Emit (ToRoomExcept (socket cA) b) (UserLeft (userId cA) (userName cA) (userEmail cA) (socket cA))]"
    using a(2) by (simp add: left_notice_def)
  show "\<exists>xs ys st. snd (join_board eng e k data s) =
           xs @ Emit (ToRoomExcept (socket cA) b)
                  (UserLeft (userId cA) (userName cA) (userEmail cA) (socket cA)) #
           ys @ [Emit (ToSocket k) (SyncBoard st),
                 Emit (ToSocket k) (ActiveUsers (active_users (fst (join_board eng e k data s)) b)),
                 Emit (ToRoomExcept k b)
                   (UserJoined (or_else dbUserId (data_userId data))
                      (or_else (data_userName data) (Some ''Anonymous''))
                      (data_userEmail data) (getRandomColor (random_index e)) k userRole),
                 Emit (ToSocket k) (UserRole userRole)]"
    apply (rule exI [of _ "pre @ concat (map (left_notice s b) as)"])
    apply (rule exI [of _ "concat (map (left_notice s b) bs)"])
    apply (rule exI [of _ st])
    apply (simp add: out sp ln new_connection_def)
    done
qed

text \<open>A connection that shares an identity with a join passes the test of lines 183--184.\<close>

lemma shares_identity_same_user:
  "shares_identity R s r dbUserId email \<Longrightarrow> conns s r = Some c \<Longrightarrow> same_user dbUserId email c"
  by (auto simp: shares_identity_def resolved_id_def same_user_def truthy_def split: if_splits)

lemma resolved_by_join_admitted:
  "data_boardId data \<noteq> [] \<Longrightarrow>
   verify_access e (prisma s) (data_boardId data) (data_userId data) = (True, userRole, dbUserId, l) \<Longrightarrow>
     resolved_by_join e data s R = (if truthy dbUserId then insert (nextConn s) R else R)"
  by (simp add: resolved_by_join_def)

section \<open>The connection that was replaced\<close>







section \<open>A second join by the same user\<close>







section \<open>Uniqueness of identities in a room\<close>

lemma pairwise_free_filter: "pairwise_free R xs \<Longrightarrow> pairwise_free R (filter Q xs)"
  by (induction xs) (auto simp: list_all_iff)

lemma pairwise_free_snoc:
  "pairwise_free R (xs @ [x]) = (pairwise_free R xs \<and> list_all (\<lambda>d. \<not> R d x \<and> \<not> R x d) xs)"
  by (induction xs) (auto simp: list_all_iff)

lemma members_filter:
  "concat (map (\<lambda>r. case conns s r of None \<Rightarrow> [] | Some c \<Rightarrow> [c])
      (filter (\<lambda>x. \<not> is_same_user s d m x) rs)) =
   filter (\<lambda>c. \<not> same_user d m c)
     (concat (map (\<lambda>r. case conns s r of None \<Rightarrow> [] | Some c \<Rightarrow> [c]) rs))"
  by (induction rs) (auto simp: is_same_user_def split: option.splits)

lemma members_cong:
  assumes "\<And>r. r \<in> set rs \<Longrightarrow> h' r = h r"
  shows "concat (map (\<lambda>r. case h' r of None \<Rightarrow> [] | Some c \<Rightarrow> [c]) rs) =
         concat (map (\<lambda>r. case h r of None \<Rightarrow> [] | Some c \<Rightarrow> [c]) rs)"
  using assms by (induction rs) auto

lemma members_alloc_snoc:
  assumes "\<And>r. r \<in> set rs \<Longrightarrow> r \<noteq> n"
  shows "concat (map (\<lambda>r. case ((conns s)(n \<mapsto> new)) r of None \<Rightarrow> [] | Some c \<Rightarrow> [c]) (rs @ [n])) =
         concat (map (\<lambda>r. case conns s r of None \<Rightarrow> [] | Some c \<Rightarrow> [c]) rs) @ [new]"
proof -
  have "concat (map (\<lambda>r. case ((conns s)(n \<mapsto> new)) r of None \<Rightarrow> [] | Some c \<Rightarrow> [c]) rs) =
        concat (map (\<lambda>r. case conns s r of None \<Rightarrow> [] | Some c \<Rightarrow> [c]) rs)"
    by (rule members_cong) (simp add: assms)
  then show ?thesis by simp
qed

lemma members_of_join:
  assumes w: "wf s"
    and b: "data_boardId data = b" "b \<noteq> []"
    and v: "verify_access e (prisma s) b (data_userId data) = (True, userRole, dbUserId, l)"
  shows "members_of (fst (join_board eng e k data s)) b =
           filter (\<lambda>c. \<not> same_user dbUserId (data_userEmail data) c) (members_of s b) @
           [new_connection e k data dbUserId]"
    and "b' \<noteq> b \<Longrightarrow> members_of (fst (join_board eng e k data s)) b' = members_of s b'"
proof -
  note J = join_board_admits [OF w b v, where eng = eng and k = k]
  let ?n = "new_connection e k data dbUserId"
  let ?kept = "filter (\<lambda>x. \<not> is_same_user s dbUserId (data_userEmail data) x) (connections_of s b)"
  have old: "\<And>b' r. r \<in> set (connections_of s b') \<Longrightarrow> r \<noteq> nextConn s"
    using wf_connections_of(2) [OF w] by blast
  have kept: "\<And>r. r \<in> set ?kept \<Longrightarrow> r \<noteq> nextConn s"
    using old by auto
  have "members_of (fst (join_board eng e k data s)) b =
      concat (map (\<lambda>r. case ((conns s)(nextConn s \<mapsto> ?n)) r of None \<Rightarrow> [] | Some c \<Rightarrow> [c])
        (?kept @ [nextConn s]))"
    by (simp only: members_of_def J(1) J(3))
  also have "\<dots> = concat (map (\<lambda>r. case conns s r of None \<Rightarrow> [] | Some c \<Rightarrow> [c]) ?kept) @ [?n]"
    by (rule members_alloc_snoc [OF kept])
  also have "\<dots> = filter (\<lambda>c. \<not> same_user dbUserId (data_userEmail data) c) (members_of s b) @ [?n]"
    by (simp only: members_filter members_of_def)
  finally show "members_of (fst (join_board eng e k data s)) b =
           filter (\<lambda>c. \<not> same_user dbUserId (data_userEmail data) c) (members_of s b) @ [?n]" .
  assume nb: "b' \<noteq> b"
  have "members_of (fst (join_board eng e k data s)) b' =
      concat (map (\<lambda>r. case ((conns s)(nextConn s \<mapsto> ?n)) r of None \<Rightarrow> [] | Some c \<Rightarrow> [c])
        (connections_of s b'))"
    by (simp only: members_of_def J(2) [OF nb] J(3))
  also have "\<dots> = concat (map (\<lambda>r. case conns s r of None \<Rightarrow> [] | Some c \<Rightarrow> [c]) (connections_of s b'))"
    by (rule members_cong) (simp add: old)
  finally show "members_of (fst (join_board eng e k data s)) b' = members_of s b'"
    by (simp only: members_of_def)
qed

lemma email_unique_join:
  assumes w: "wf s" and u: "\<And>b. email_unique s b"
  shows "email_unique (fst (join_board eng e k data s)) b"
proof (cases "data_boardId data = []")
  case True
  then show ?thesis using u by (simp add: join_board_no_board)
next
  case False
  obtain h userRole dbUserId l where
    v: "verify_access e (prisma s) (data_boardId data) (data_userId data) = (h, userRole, dbUserId, l)"
    by (cases "verify_access e (prisma s) (data_boardId data) (data_userId data)") auto
  show ?thesis
  proof (cases h)
    case False
    then show ?thesis using u v by (simp add: join_board_denied)
  next
    case True
    have v': "verify_access e (prisma s) (data_boardId data) (data_userId data) = (True, userRole, dbUserId, l)"
      using v True by simp
    note M = members_of_join [OF w refl False v', where eng = eng and k = k]
    show ?thesis
    proof (cases "b = data_boardId data")
      case False
      then show ?thesis using u [of b] by (simp add: email_unique_def M(2))
    next
      case True
      have p: "pairwise_free shares_email
          (filter (\<lambda>c. \<not> same_user dbUserId (data_userEmail data) c) (members_of s b))"
        using u [of b] unfolding email_unique_def by (rule pairwise_free_filter)
      have q: "list_all (\<lambda>d. \<not> shares_email d (new_connection e k data dbUserId) \<and>
                            \<not> shares_email (new_connection e k data dbUserId) d)
          (filter (\<lambda>c. \<not> same_user dbUserId (data_userEmail data) c) (members_of s b))"
        by (auto simp: list_all_iff shares_email_def same_user_def new_connection_def)
      show ?thesis
        unfolding email_unique_def True M(1)
        using p q by (simp add: pairwise_free_snoc True)
    qed
  qed
qed


lemma distinct_concat_filter:
  "distinct (concat (map f xs)) \<Longrightarrow> distinct (concat (map f (filter P xs)))"
  by (induction xs) auto

lemma resolved_id_cong:
  "conns s' r = conns s r \<Longrightarrow> (r \<in> R') = (r \<in> R) \<Longrightarrow> resolved_id R' s' r = resolved_id R s r"
  by (simp add: resolved_id_def)

lemma concat_map_cong:
  "(\<And>x. x \<in> set xs \<Longrightarrow> f x = g x) \<Longrightarrow> concat (map f xs) = concat (map g xs)"
  by (induction xs) auto

lemma resolved_ids_cong:
  assumes "connections_of s' b = connections_of s b"
    and "\<And>r. r \<in> set (connections_of s b) \<Longrightarrow> resolved_id R' s' r = resolved_id R s r"
  shows "resolved_ids R' s' b = resolved_ids R s b"
  unfolding resolved_ids_def assms(1)
  by (rule concat_map_cong) (simp add: assms(2))

lemma resolved_by_join_not_admitted:
  "data_boardId data = [] \<or> \<not> fst (verify_access e (prisma s) (data_boardId data) (data_userId data)) \<Longrightarrow>
     resolved_by_join e data s R = R"
  by (auto simp: resolved_by_join_def split: prod.splits)

text \<open>A join keeps the resolved user ids of every room distinct.\<close>

lemma id_unique_join:
  assumes w: "wf s" and bd: "\<forall>r\<in>R. r < nextConn s" and u: "\<And>b. id_unique R s b"
  shows "id_unique (resolved_by_join e data s R) (fst (join_board eng e k data s)) b"
proof (cases "data_boardId data = []")
  case True
  then show ?thesis
    using u by (simp add: join_board_no_board resolved_by_join_not_admitted)
next
  case nb: False
  obtain h userRole dbUserId l where
    v: "verify_access e (prisma s) (data_boardId data) (data_userId data) = (h, userRole, dbUserId, l)"
    by (cases "verify_access e (prisma s) (data_boardId data) (data_userId data)") auto
  show ?thesis
  proof (cases h)
    case False
    then show ?thesis
      using u v by (simp add: join_board_denied resolved_by_join_not_admitted)
  next
    case True
    have v': "verify_access e (prisma s) (data_boardId data) (data_userId data) = (True, userRole, dbUserId, l)"
      using v True by simp
    note J = join_board_admits [OF w refl nb v', where eng = eng and k = k]
    let ?s' = "fst (join_board eng e k data s)"
    let ?R' = "resolved_by_join e data s R"
    let ?n = "nextConn s"
    let ?g = "\<lambda>r. case resolved_id R s r of None \<Rightarrow> [] | Some d \<Rightarrow> [d]"
    have R': "?R' = (if truthy dbUserId then insert ?n R else R)"
      by (rule resolved_by_join_admitted [OF nb v'])
    have old: "\<And>r. r < ?n \<Longrightarrow> resolved_id ?R' ?s' r = resolved_id R s r"
      by (rule resolved_id_cong) (simp_all add: J(3) R')
    have below: "\<And>b' r. r \<in> set (connections_of s b') \<Longrightarrow> r < ?n"
      using wf_connections_of(2) [OF w] by blast
    show ?thesis
    proof (cases "b = data_boardId data")
      case False
      have "resolved_ids ?R' ?s' b = resolved_ids R s b"
        by (rule resolved_ids_cong) (simp_all add: J(2) [OF False] old below)
      then show ?thesis
        using u [of b] by (simp add: id_unique_def)
    next
      case b: True
      let ?kept = "filter (\<lambda>x. \<not> is_same_user s dbUserId (data_userEmail data) x) (connections_of s b)"
      have room: "connections_of ?s' b = ?kept @ [?n]"
        unfolding b by (rule J(1))
      have kp: "concat (map (\<lambda>r. case resolved_id ?R' ?s' r of None \<Rightarrow> [] | Some d \<Rightarrow> [d]) ?kept) =
          concat (map ?g ?kept)"
        by (rule concat_map_cong) (auto simp: old below)
      have "resolved_ids ?R' ?s' b =
          concat (map (\<lambda>r. case resolved_id ?R' ?s' r of None \<Rightarrow> [] | Some d \<Rightarrow> [d]) ?kept) @
          (case resolved_id ?R' ?s' ?n of None \<Rightarrow> [] | Some d \<Rightarrow> [d])"
        by (simp add: resolved_ids_def room)
      then have ids: "resolved_ids ?R' ?s' b =
          concat (map ?g ?kept) @ (case resolved_id ?R' ?s' ?n of None \<Rightarrow> [] | Some d \<Rightarrow> [d])"
        by (simp only: kp)
      have dk: "distinct (concat (map ?g ?kept))"
        using u [of b] unfolding id_unique_def resolved_ids_def by (rule distinct_concat_filter)
      show ?thesis
      proof (cases "truthy dbUserId")
        case False
        have "?n \<notin> R" using bd by auto
        then have "resolved_id ?R' ?s' ?n = None"
          using False by (simp add: resolved_id_def R')
        then show ?thesis
          using dk by (simp add: id_unique_def ids)
      next
        case True
        then obtain d where d: "dbUserId = Some d" "d \<noteq> []"
          by (auto simp: truthy_def split: option.splits)
        have new: "resolved_id ?R' ?s' ?n = Some d"
          using True d by (simp add: resolved_id_def R' J(3) new_connection_def or_else_def)
        have "d \<notin> set (concat (map ?g ?kept))"
        proof
          assume "d \<in> set (concat (map ?g ?kept))"
          then obtain r where r: "r \<in> set ?kept" "resolved_id R s r = Some d"
            by (auto split: option.splits)
          then obtain c where c: "conns s r = Some c" "userId c = Some d"
            by (auto simp: resolved_id_def split: if_splits option.splits)
          then have "is_same_user s dbUserId (data_userEmail data) r"
            using True d by (simp add: is_same_user_def same_user_def)
          then show False using r(1) by simp
        qed
        then show ?thesis
          using dk by (simp add: id_unique_def ids new)
      qed
    qed
  qed
qed

lemma resolved_by_join_bounded:
  assumes "wf s" and "\<forall>r\<in>R. r < nextConn s"
  shows "\<forall>r\<in>resolved_by_join e data s R. r < nextConn (fst (join_board eng e k data s))"
proof (cases "data_boardId data = [] \<or> \<not> fst (verify_access e (prisma s) (data_boardId data) (data_userId data))")
  case True
  then have "fst (join_board eng e k data s) = s"
    using join_board_no_board [of data eng e k s] join_board_denied [of e s data eng k] by blast
  then show ?thesis
    using assms True by (simp add: resolved_by_join_not_admitted)
next
  case False
  then obtain userRole dbUserId l where nb: "data_boardId data \<noteq> []"
    and v: "verify_access e (prisma s) (data_boardId data) (data_userId data) = (True, userRole, dbUserId, l)"
    by (cases "verify_access e (prisma s) (data_boardId data) (data_userId data)") auto
  have n: "nextConn (fst (join_board eng e k data s)) = Suc (nextConn s)"
    by (rule join_board_admits(4) [OF assms(1) refl nb v])
  show ?thesis
    using assms by (auto simp: resolved_by_join_admitted [OF nb v] n less_Suc_eq)
qed

text \<open>
  C3, as amended. Every join keeps, in every room, the resolved user ids of the connections
  distinct and the non-empty emails distinct (among all connections of the room, so also
  among those without resolved user id). When the join is admitted: the connections built
  earlier keep their resolved user id and the new one has the id that the join resolved, if
  any; the room becomes the older connections that fail the test of lines 183--184,
  followed by the new one; and each older connection that shares an identity with the join
  (its resolved user id, or its non-empty email) is no longer in the room, its
  \<open>user-left\<close> notice coming before the roster of the room with the new connection in it.
\<close>

theorem admit_keeps_identities_unique:
  assumes "wf s" and "\<forall>r\<in>R. r < nextConn s"
    and "\<forall>b. id_unique R s b" and "\<forall>b. email_unique s b"
    and "s' = fst (join_board eng e k data s)" and "R' = resolved_by_join e data s R"
  shows "wf s' \<and> (\<forall>r\<in>R'. r < nextConn s') \<and> (\<forall>b. id_unique R' s' b) \<and> (\<forall>b. email_unique s' b) \<and>
    (\<forall>userRole dbUserId l.
       data_boardId data \<noteq> [] \<and>
       verify_access e (prisma s) (data_boardId data) (data_userId data) = (True, userRole, dbUserId, l) \<longrightarrow>
         (\<forall>r. r < nextConn s \<longrightarrow> resolved_id R' s' r = resolved_id R s r) \<and>
         resolved_id R' s' (nextConn s) = (if truthy dbUserId then dbUserId else None) \<and>
         connections_of s' (data_boardId data) =
           filter (\<lambda>x. \<not> is_same_user s dbUserId (data_userEmail data) x)
             (connections_of s (data_boardId data)) @ [nextConn s] \<and>
         (\<forall>rA cA. rA \<in> set (connections_of s (data_boardId data)) \<and> conns s rA = Some cA \<and>
                  shares_identity R s rA dbUserId (data_userEmail data) \<longrightarrow>
            rA \<notin> set (connections_of s' (data_boardId data)) \<and>
            (\<exists>xs ys zs. snd (join_board eng e k data s) =
               xs @ Emit (ToRoomExcept (socket cA) (data_boardId data))
                      (UserLeft (userId cA) (userName cA) (userEmail cA) (socket cA)) #
               ys @ Emit (ToSocket k) (ActiveUsers (active_users s' (data_boardId data))) # zs)))"
proof (intro conjI allI impI)
  show "wf s'" unfolding assms(5) by (rule wf_join_board [OF assms(1)])
next
  show "\<forall>r\<in>R'. r < nextConn s'"
    unfolding assms(5,6) by (rule resolved_by_join_bounded [OF assms(1,2)])
next
  fix b
  show "id_unique R' s' b"
    unfolding assms(5,6) using assms(3) by (intro id_unique_join [OF assms(1,2)]) simp
next
  fix b
  show "email_unique s' b"
    unfolding assms(5) using assms(4) by (intro email_unique_join [OF assms(1)]) simp
next
  fix userRole dbUserId l
  assume a: "data_boardId data \<noteq> [] \<and>
       verify_access e (prisma s) (data_boardId data) (data_userId data) = (True, userRole, dbUserId, l)"
  then have nb: "data_boardId data \<noteq> []"
    and v: "verify_access e (prisma s) (data_boardId data) (data_userId data) = (True, userRole, dbUserId, l)"
    by simp_all
  note J = join_board_admits [OF assms(1) refl nb v, where eng = eng and k = k]
  have R': "R' = (if truthy dbUserId then insert (nextConn s) R else R)"
    unfolding assms(6) by (rule resolved_by_join_admitted [OF nb v])
  have fresh: "nextConn s \<notin> R" using assms(2) by auto
  show "connections_of s' (data_boardId data) =
           filter (\<lambda>x. \<not> is_same_user s dbUserId (data_userEmail data) x)
             (connections_of s (data_boardId data)) @ [nextConn s]"
    unfolding assms(5) by (rule J(1))
  show "resolved_id R' s' (nextConn s) = (if truthy dbUserId then dbUserId else None)"
    unfolding assms(5) using fresh
    by (simp add: resolved_id_def R' J(3) new_connection_def or_else_def)
  {
    fix r
    assume "r < nextConn s"
    then show "resolved_id R' s' r = resolved_id R s r"
      unfolding assms(5) by (intro resolved_id_cong) (simp_all add: J(3) R')
  }
  {
    fix rA cA
    assume h: "rA \<in> set (connections_of s (data_boardId data)) \<and> conns s rA = Some cA \<and>
               shares_identity R s rA dbUserId (data_userEmail data)"
    then have m: "rA \<in> set (connections_of s (data_boardId data))" and c: "conns s rA = Some cA"
      and i: "shares_identity R s rA dbUserId (data_userEmail data)"
      by simp_all
    have su: "same_user dbUserId (data_userEmail data) cA"
      by (rule shares_identity_same_user [OF i c])
    note P = replaced_connection [OF assms(1) m c refl nb v su, where eng = eng and k = k]
    show "rA \<notin> set (connections_of s' (data_boardId data))"
      unfolding assms(5) by (rule P(1))
    obtain xs ys st where out: "snd (join_board eng e k data s) =
           xs @ Emit (ToRoomExcept (socket cA) (data_boardId data))
                  (UserLeft (userId cA) (userName cA) (userEmail cA) (socket cA)) #
           ys @ [Emit (ToSocket k) (SyncBoard st),
                 Emit (ToSocket k) (ActiveUsers (active_users s' (data_boardId data))),
                 Emit (ToRoomExcept k (data_boardId data))
                   (UserJoined (or_else dbUserId (data_userId data))
                      (or_else (data_userName data) (Some ''Anonymous''))
                      (data_userEmail data) (getRandomColor (random_index e)) k userRole),
                 Emit (ToSocket k) (UserRole userRole)]"
      using P(2) unfolding assms(5) by blast
    show "\<exists>xs ys zs. snd (join_board eng e k data s) =
               xs @ Emit (ToRoomExcept (socket cA) (data_boardId data))
                      (UserLeft (userId cA) (userName cA) (userEmail cA) (socket cA)) #
               ys @ Emit (ToSocket k) (ActiveUsers (active_users s' (data_boardId data))) # zs"
      apply (rule exI [of _ xs])
      apply (rule exI [of _ "ys @ [Emit (ToSocket k) (SyncBoard st)]"])
      apply (simp add: out)
      done
  }
qed

text \<open>
  C3 as stated fails for an email that is not null but empty. Two anonymous callers join
  the public board, each with the email \<open>""\<close>; neither join resolves a user id. Both
  connections stay in the room: two connections without resolved user id and with the
  same email.
\<close>

theorem blank_email_twice_in_a_room:
  "resolved_by_join quiet (request ''b1'' None (Some [])) (init demo_db :: bytes state) {} = {} \<and>
   resolved_by_join quiet (request ''b1'' None (Some []))
     (fst (join_board gset_engine quiet ''s1'' (request ''b1'' None (Some [])) (init demo_db))) {} = {} \<and>
   members_of blank_twice ''b1'' =
     [\<lparr>socket = ''s1'', boardId = ''b1'', userId = None, userName = Some ''Anonymous'',
       userEmail = Some [], color = Some ''#FFA07A'', cursor = None\<rparr>,
      \<lparr>socket = ''s2'', boardId = ''b1'', userId = None, userName = Some ''Anonymous'',
       userEmail = Some [], color = Some ''#FFA07A'', cursor = None\<rparr>] \<and>
   unresolved_emails {} blank_twice ''b1'' = [[], []] \<and>
   \<not> distinct (unresolved_emails {} blank_twice ''b1'')"
proof -
  have r: "\<And>s :: bytes state. resolved_by_join quiet (request ''b1'' None (Some [])) s {} = {}"
    by (auto simp: resolved_by_join_def verify_access_def anonymous_access_def request_def truthy_def
          split: prod.splits option.splits)
  have m: "members_of blank_twice ''b1'' =
     [\<lparr>socket = ''s1'', boardId = ''b1'', userId = None, userName = Some ''Anonymous'',
       userEmail = Some [], color = Some ''#FFA07A'', cursor = None\<rparr>,
      \<lparr>socket = ''s2'', boardId = ''b1'', userId = None, userName = Some ''Anonymous'',
       userEmail = Some [], color = Some ''#FFA07A'', cursor = None\<rparr>]"
    by (simp add: members_of_def connections_of_def blank_twice_eq)
  have e: "unresolved_emails {} blank_twice ''b1'' = [[], []]"
    by (simp add: unresolved_emails_def resolved_id_def connections_of_def blank_twice_eq)
  show ?thesis
    by (simp add: r m e)
qed

lemma email_unique_init: "email_unique (init db) b"
  by (simp add: email_unique_def members_of_def connections_of_def init_def)

lemma id_unique_init: "id_unique {} (init db) b"
  by (simp add: id_unique_def resolved_ids_def connections_of_def init_def)

theorem admit_keeps_identities_unique_witness:
  "wf with_bob \<and> nextConn with_bob = 2 \<and>
   (\<forall>b. id_unique {0, 1} with_bob b) \<and> (\<forall>b. email_unique with_bob b) \<and>
   resolved_by_join quiet (request ''b1'' (Some ''f-ann'') None) with_bob {0, 1} = {0, 1, 2} \<and>
   verify_access quiet (prisma with_bob) ''b1'' (Some ''f-ann'') = (True, ''owner'', Some ''ann'', []) \<and>
   0 \<in> set (connections_of with_bob ''b1'') \<and>
   shares_identity {0, 1} with_bob 0 (Some ''ann'') None \<and>
   wf ann_returns \<and> (\<forall>b. id_unique {0, 1, 2} ann_returns b) \<and> (\<forall>b. email_unique ann_returns b) \<and>
   resolved_ids {0, 1} with_bob ''b1'' = [''ann'', ''bob''] \<and>
   resolved_ids {0, 1, 2} ann_returns ''b1'' = [''bob'', ''ann''] \<and>
   resolved_id {0, 1, 2} ann_returns 2 = Some ''ann'' \<and>
   connections_of ann_returns ''b1'' = [1, 2] \<and>
   0 \<notin> set (connections_of ann_returns ''b1'') \<and>
   wf carol_joined \<and> (\<forall>b. email_unique carol_joined b) \<and>
   verify_access quiet (prisma carol_joined) ''b1'' None = (True, ''viewer'', None, []) \<and>
   shares_identity {} carol_joined 0 None (Some ''c@x'') \<and>
   (\<forall>b. email_unique carol_twice b) \<and>
   connections_of carol_twice ''b1'' = [1]"
proof -
  let ?a = "request ''b1'' (Some ''f-ann'') None"
  let ?b = "request ''b1'' (Some ''f-bob'') None"
  let ?c = "request ''b1'' None (Some ''c@x'')"
  have w0: "wf (init demo_db :: bytes state)" by (rule wf_init)
  have b0: "\<forall>r\<in>{}. r < nextConn (init demo_db :: bytes state)" by simp
  have i0: "\<forall>b. id_unique {} (init demo_db :: bytes state) b" by (simp add: id_unique_init)
  have u0: "\<forall>b. email_unique (init demo_db :: bytes state) b" by (simp add: email_unique_init)
  have g1: "{0} = resolved_by_join quiet ?a (init demo_db :: bytes state) {}"
    by (simp add: resolved_by_join_def step_defs demo_defs)
  have g2: "{0, 1} = resolved_by_join quiet ?b ann_joined {0}"
    unfolding ann_joined_eq by (auto simp: resolved_by_join_def step_defs demo_defs)
  have g3: "{0, 1, 2} = resolved_by_join quiet ?a with_bob {0, 1}"
    unfolding with_bob_eq by (auto simp: resolved_by_join_def step_defs demo_defs)
  have g4: "{} = resolved_by_join quiet ?c (init demo_db :: bytes state) {}"
    by (simp add: resolved_by_join_def step_defs demo_defs)
  have g5: "{} = resolved_by_join quiet ?c carol_joined {}"
    unfolding carol_joined_eq by (simp add: resolved_by_join_def step_defs demo_defs)
  note T1 = admit_keeps_identities_unique [OF w0 b0 i0 u0 ann_joined_def g1]
  have w1: "wf ann_joined" and b1: "\<forall>r\<in>{0}. r < nextConn ann_joined"
    and i1: "\<forall>b. id_unique {0} ann_joined b" and u1: "\<forall>b. email_unique ann_joined b"
    using T1 by blast+
  note T2 = admit_keeps_identities_unique [OF w1 b1 i1 u1 with_bob_def g2]
  have w2: "wf with_bob" and b2: "\<forall>r\<in>{0, 1}. r < nextConn with_bob"
    and i2: "\<forall>b. id_unique {0, 1} with_bob b" and u2: "\<forall>b. email_unique with_bob b"
    using T2 by blast+
  note T3 = admit_keeps_identities_unique [OF w2 b2 i2 u2 ann_returns_def g3]
  have w3: "wf ann_returns" and i3: "\<forall>b. id_unique {0, 1, 2} ann_returns b"
    and u3: "\<forall>b. email_unique ann_returns b"
    using T3 by blast+
  have da: "data_boardId ?a = ''b1''" "data_userId ?a = Some ''f-ann''" "data_userEmail ?a = None"
    and dc: "data_boardId ?c = ''b1''" "data_userId ?c = None" "data_userEmail ?c = Some ''c@x''"
    by (simp_all add: request_def)
  have va: "verify_access quiet (prisma with_bob) ''b1'' (Some ''f-ann'') = (True, ''owner'', Some ''ann'', [])"
    by (simp add: with_bob_eq step_defs demo_defs)
  have m0: "0 \<in> set (connections_of with_bob ''b1'')"
    by (simp add: with_bob_eq connections_of_def)
  have c0: "conns with_bob 0 = Some \<lparr>socket = ''s1'', boardId = ''b1'', userId = Some ''ann'',
      userName = Some ''Anonymous'', userEmail = None, color = Some ''#FFA07A'', cursor = None\<rparr>"
    by (simp add: with_bob_eq)
  have s0: "shares_identity {0, 1} with_bob 0 (Some ''ann'') None"
    by (simp add: shares_identity_def resolved_id_def c0 truthy_def)
  have gone: "0 \<notin> set (connections_of ann_returns ''b1'')"
    using T3 [unfolded da] va m0 c0 s0 by blast
  have r2: "resolved_ids {0, 1} with_bob ''b1'' = [''ann'', ''bob'']"
    by (simp add: resolved_ids_def resolved_id_def connections_of_def with_bob_eq)
  have r3: "resolved_ids {0, 1, 2} ann_returns ''b1'' = [''bob'', ''ann'']"
    by (simp add: resolved_ids_def resolved_id_def connections_of_def ann_returns_eq)
  have n3: "resolved_id {0, 1, 2} ann_returns 2 = Some ''ann''"
    by (simp add: resolved_id_def ann_returns_eq)
  have k3: "connections_of ann_returns ''b1'' = [1, 2]"
    by (simp add: connections_of_def ann_returns_eq)
  note T4 = admit_keeps_identities_unique [OF w0 b0 i0 u0 carol_joined_def g4]
  have w4: "wf carol_joined" and b4: "\<forall>r\<in>{}. r < nextConn carol_joined"
    and i4: "\<forall>b. id_unique {} carol_joined b" and u4: "\<forall>b. email_unique carol_joined b"
    using T4 by blast+
  note T5 = admit_keeps_identities_unique [OF w4 b4 i4 u4 carol_twice_def g5]
  have u5: "\<forall>b. email_unique carol_twice b"
    using T5 by blast
  have vc: "verify_access quiet (prisma carol_joined) ''b1'' None = (True, ''viewer'', None, [])"
    by (simp add: carol_joined_eq step_defs demo_defs)
  have sc: "shares_identity {} carol_joined 0 None (Some ''c@x'')"
    by (simp add: shares_identity_def carol_joined_eq truthy_def)
  have k5: "connections_of carol_twice ''b1'' = [1]"
    unfolding carol_twice_def carol_joined_eq by (simp add: step_defs demo_defs)
  have n2: "nextConn with_bob = 2" by (simp add: with_bob_eq)
  show ?thesis
    by (intro conjI w2 n2 i2 u2 g3 [symmetric] va m0 s0 w3 i3 u3 r2 r3 n3 k3 gone w4 u4 vc sc u5 k5)
qed

section \<open>Joins that interleave\<close>

lemma join_resume_Finished [simp]: "join_resume eng e k data Finished s = (Finished, s, [])"
  by (simp add: join_resume_def)

lemma after_access_run:
  "(case after_access eng e k data acc s of
      (p1, s1, out1) \<Rightarrow>
        (case join_resume eng e k data p1 s1 of (p2, s2, out2) \<Rightarrow> (s2, out1 @ out2))) =
   (case acc of
      (hasAccess, userRole, dbUserId, l) \<Rightarrow>
        if \<not> hasAccess then (s, l @ [Emit (ToSocket k) (Error ''Access denied to this board'')])
        else
          (case load_or_create eng e (data_boardId data) (socket_join k (data_boardId data) s) of
             (yDoc, s2, l2) \<Rightarrow>
               (case admit eng e k data userRole dbUserId yDoc s2 of
                  (s3, out) \<Rightarrow> (s3, l @ l2 @ out))))"
  by (cases "boardDocs s (data_boardId data)")
     (auto simp: after_access_def join_resume_def load_or_create_def Let_def
           split: prod.splits option.splits)

lemma after_access_run_twice:
  "(case after_access eng e k data acc s of
      (p1, s1, out1) \<Rightarrow>
        (case join_resume eng e k data p1 s1 of
           (p2, s2, out2) \<Rightarrow>
             (case join_resume eng e k data p2 s2 of (p3, s3, out3) \<Rightarrow> (s3, out1 @ out2 @ out3)))) =
   (case after_access eng e k data acc s of
      (p1, s1, out1) \<Rightarrow>
        (case join_resume eng e k data p1 s1 of (p2, s2, out2) \<Rightarrow> (s2, out1 @ out2)))"
  by (cases "boardDocs s (data_boardId data)")
     (auto simp: after_access_def join_resume_def Let_def split: prod.splits option.splits)

text \<open>
  The pieces between the suspension points, run back to back, are the handler of the
  sequential model.
\<close>

lemma join_uninterrupted_is_join_board:
  "join_uninterrupted eng e k data s = join_board eng e k data s"
proof (cases "data_boardId data = []")
  case True
  then show ?thesis
    by (simp add: join_uninterrupted_def join_begin_def join_board_def)
next
  case nb: False
  show ?thesis
  proof (cases "truthy (data_userId data)")
    case False
    then have v: "verify_access e (prisma s) (data_boardId data) (data_userId data) =
        anonymous_access e (prisma s) (data_boardId data)"
      by (auto simp: verify_access_def truthy_def split: option.splits)
    show ?thesis
      using nb False after_access_run [of eng e k data "anonymous_access e (prisma s) (data_boardId data)" s]
        after_access_run_twice [of eng e k data "anonymous_access e (prisma s) (data_boardId data)" s]
      by (simp add: join_uninterrupted_def join_begin_def join_resume_def [of _ _ _ _ Await_board_anonymous]
            join_board_def v Let_def)
  next
    case True
    then obtain uid where u: "data_userId data = Some uid" "uid \<noteq> []"
      by (auto simp: truthy_def split: option.splits)
    show ?thesis
    proof (cases "user_findUnique e (prisma s) uid")
      case None
      have v: "verify_access e (prisma s) (data_boardId data) (data_userId data) =
          (False, ''viewer'', None, [ConsoleError ''Error verifying board access:''])"
        using u None by (simp add: verify_access_def)
      show ?thesis
        using nb True u None
        by (simp add: join_uninterrupted_def join_begin_def join_resume_def [of _ _ _ _ Await_user]
              after_access_def join_board_def v [unfolded u(1)] Let_def)
    next
      case (Some dbUser)
      have v: "verify_access e (prisma s) (data_boardId data) (data_userId data) =
          member_access e (prisma s) (data_boardId data) dbUser"
        using u Some by (simp add: verify_access_def)
      show ?thesis
        using nb True u Some
          after_access_run [of eng e k data "member_access e (prisma s) (data_boardId data) dbUser" s]
        by (simp add: join_uninterrupted_def join_begin_def join_resume_def [of _ _ _ _ Await_user]
              join_resume_def [of _ _ _ _ "Await_board_access _"] join_board_def v [unfolded u(1)] Let_def)
    qed
  qed
qed


text \<open>
  C2 (the code departs from the claim). Between the test \<^verbatim>\<open>if (!yDoc)\<close> (line 125) and
  \<^verbatim>\<open>boardDocs.set\<close> (line 141) the handler awaits the snapshot (line 130). Two joins for a
  board without a handle, both suspended there, have both found the table empty and have
  each built a \<open>Y.Doc\<close>: two document objects exist, each with its own save listener, and
  the table keeps the one installed last. The same two joins one after the other build one.
\<close>

theorem concurrent_first_joins_build_two_handles:
  "(case schedule gset_engine quiet
           [Arrive ''s1'' (request ''b1'' None None), Arrive ''s2'' (request ''b1'' None None),
            Resume 0, Resume 1, Resume 0, Resume 1] (init demo_db, []) of
      ((s, tasks), out) \<Rightarrow>
        (nextDoc s, boardDocs s ''b1'', docs s 0, docs s 1, map (\<lambda>t. snd (snd t)) tasks)) =
     (2, Some 1,
      Some \<lparr>content = [7], observers = [''b1'']\<rparr>,
      Some \<lparr>content = [7], observers = [''b1'']\<rparr>,
      [Finished, Finished]) \<and>
   (case schedule gset_engine quiet
           [Arrive ''s1'' (request ''b1'' None None), Resume 0, Resume 0,
            Arrive ''s2'' (request ''b1'' None None), Resume 1, Resume 1] (init demo_db, []) of
      ((s, tasks), out) \<Rightarrow>
        (nextDoc s, boardDocs s ''b1'', docs s 0, docs s 1, map (\<lambda>t. snd (snd t)) tasks)) =
     (1, Some 0, Some \<lparr>content = [7], observers = [''b1'']\<rparr>, None, [Finished, Finished])"
  by code_simp

end
